theory Spec2Isabelle
  imports Complex_Main "HOL-Library.AList" "HOL-Library.Code_Target_Nat"
begin

section \<open>Time\<close>

text \<open>
  A Python \<^verbatim>\<open>datetime\<close> is modelled as the number of microseconds since a fixed epoch
  (naive datetimes have microsecond resolution), a \<^verbatim>\<open>timedelta\<close> as a number of
  microseconds.  The calendar range of \<^verbatim>\<open>datetime\<close> (years 1 to 9999) is not modelled.
\<close>

type_synonym datetime = int

definition SECOND :: int where "SECOND = 1000000"
definition MINUTE :: int where "MINUTE = 60000000"
definition HOUR :: int where "HOUR = 3600000000"
definition DAY :: int where "DAY = 86400000000"

text \<open>\<^verbatim>\<open>timedelta.days\<close>: timedeltas are normalised with a seconds part in \<open>[0, 86400)\<close>,
  so the days part is the floor of the quotient (negative for a negative delta).\<close>

definition timedelta_days :: "int \<Rightarrow> int" where
  "timedelta_days td = td div DAY"

text \<open>\<^verbatim>\<open>int(td.total_seconds())\<close>: conversion to whole seconds, truncating towards zero.\<close>

definition int_total_seconds :: "int \<Rightarrow> int" where
  "int_total_seconds td = (if 0 \<le> td then td div SECOND else - ((- td) div SECOND))"

text \<open>\<^verbatim>\<open>dt.strftime('%Y%m%d-%H%M%S')\<close> renders the datetime down to the second.  The
  rendering is one-to-one on whole seconds, so the string is modelled by the whole second.\<close>

definition strftime :: "datetime \<Rightarrow> int" where
  "strftime dt = dt div SECOND"

text \<open>\<^verbatim>\<open>dt.date()\<close>: the calendar day, modelled by the day number.\<close>

definition date_of :: "datetime \<Rightarrow> int" where
  "date_of dt = dt div DAY"

section \<open>Exceptions and the random source\<close>

datatype error = ValueError | IndexError | KeyError

text \<open>
  The process-wide generator of the \<^verbatim>\<open>random\<close> module is modelled by the list of raw
  draws still to come; each primitive consumes one draw and maps it into its range, so
  every outcome of the primitive is the image of some draw.  An exhausted list keeps
  delivering \<open>0\<close>.  A computation takes the source and returns an exception, or a value
  with the rest of the source.
\<close>

type_synonym rng = "nat list"

type_synonym 'a rand = "rng \<Rightarrow> error + ('a \<times> rng)"

fun draw :: "rng \<Rightarrow> nat \<times> rng" where
  "draw [] = (0, [])"
| "draw (r # g) = (r, g)"

definition returnM :: "'a \<Rightarrow> 'a rand" where
  "returnM x g = Inr (x, g)"

definition raise :: "error \<Rightarrow> 'a rand" where
  "raise e g = Inl e"

definition bindM :: "'a rand \<Rightarrow> ('a \<Rightarrow> 'b rand) \<Rightarrow> 'b rand" where
  "bindM m f g = (case m g of Inl e \<Rightarrow> Inl e | Inr (x, g') \<Rightarrow> f x g')"

text \<open>\<^verbatim>\<open>random.randint(a, b)\<close>: an integer in \<open>[a, b]\<close>; \<^verbatim>\<open>ValueError\<close> on an empty range.\<close>

definition random_randint :: "int \<Rightarrow> int \<Rightarrow> int rand" where
  "random_randint a b g =
     (if b < a then Inl ValueError
      else (case draw g of (r, g') \<Rightarrow> Inr (a + int r mod (b - a + 1), g')))"

text \<open>\<^verbatim>\<open>random.choice(seq)\<close>: an element of the sequence; \<^verbatim>\<open>IndexError\<close> when it is empty.\<close>

definition random_choice :: "'a list \<Rightarrow> 'a rand" where
  "random_choice xs g =
     (if xs = [] then Inl IndexError
      else (case draw g of (r, g') \<Rightarrow> Inr (xs ! (r mod length xs), g')))"

text \<open>\<^verbatim>\<open>random.random()\<close>: a multiple of \<open>2\<^sup>-\<^sup>5\<^sup>3\<close> in \<open>[0, 1)\<close>.  Floats are modelled by
  exact rationals: rounding errors of float arithmetic are not modelled.\<close>

definition random_random :: "rat rand" where
  "random_random g =
     (case draw g of (r, g') \<Rightarrow> Inr (of_int (int r mod 2 ^ 53) / 2 ^ 53, g'))"

text \<open>\<^verbatim>\<open>random.uniform(a, b)\<close> is \<^verbatim>\<open>a + (b - a) * random()\<close>.\<close>

definition random_uniform :: "rat \<Rightarrow> rat \<Rightarrow> rat rand" where
  "random_uniform a b = bindM random_random (\<lambda>u. returnM (a + (b - a) * u))"

text \<open>\<^verbatim>\<open>random.sample(population, k)\<close>: \<open>k\<close> positions of the population chosen without
  replacement, in selection order; \<^verbatim>\<open>ValueError\<close> unless \<open>0 \<le> k \<le> len(population)\<close>.
  The model returns the chosen positions, so that the caller can address the very
  objects of the population (the source mutates them through the sample).\<close>

definition remove_nth :: "nat \<Rightarrow> 'a list \<Rightarrow> 'a list" where
  "remove_nth j xs = take j xs @ drop (Suc j) xs"

fun pick_positions :: "nat \<Rightarrow> nat list \<Rightarrow> rng \<Rightarrow> nat list \<times> rng" where
  "pick_positions 0 pool g = ([], g)"
| "pick_positions (Suc k) pool g =
     (if pool = [] then ([], g)
      else (case draw g of (r, g') \<Rightarrow>
              (case pick_positions k (remove_nth (r mod length pool) pool) g' of
                 (rest, g'') \<Rightarrow> (pool ! (r mod length pool) # rest, g''))))"

definition random_sample :: "nat \<Rightarrow> int \<Rightarrow> (nat list) rand" where
  "random_sample n k g =
     (if k < 0 \<or> int n < k then Inl ValueError
      else Inr (pick_positions (nat k) [0..<n] g))"

text \<open>\<^verbatim>\<open>int(x)\<close> on a float truncates towards zero.\<close>

definition py_int :: "rat \<Rightarrow> int" where
  "py_int x = (if 0 \<le> x then \<lfloor>x\<rfloor> else \<lceil>x\<rceil>)"

text \<open>\<^verbatim>\<open>round(x)\<close> to the nearest integer, ties to the even neighbour; applied to an amount
  in cents it models \<^verbatim>\<open>round(x, 2)\<close> on the amount in currency units.\<close>

definition py_round :: "rat \<Rightarrow> int" where
  "py_round x =
     (let f = \<lfloor>x\<rfloor>; d = x - of_int f
      in if d < 1 / 2 then f else if 1 / 2 < d then f + 1 else if even f then f else f + 1)"

section \<open>Timestamps and date ranges\<close>

text \<open>\<^verbatim>\<open>random_timestamp(start_dt, end_dt)\<close>\<close>

definition random_timestamp :: "datetime \<Rightarrow> datetime \<Rightarrow> datetime rand" where
  "random_timestamp start_dt end_dt =
     bindM (random_randint 0 (int_total_seconds (end_dt - start_dt)))
       (\<lambda>random_seconds. returnM (start_dt + random_seconds * SECOND))"

text \<open>\<^verbatim>\<open>generate_random_timestamp(start_date, end_date)\<close>\<close>

definition generate_random_timestamp :: "datetime \<Rightarrow> datetime \<Rightarrow> datetime rand" where
  "generate_random_timestamp start_date end_date =
     bindM (random_randint 0 (timedelta_days (end_date - start_date))) (\<lambda>random_days.
     bindM (random_randint 0 23) (\<lambda>random_hours.
     bindM (random_randint 0 59) (\<lambda>random_minutes.
     bindM (random_randint 0 59) (\<lambda>random_seconds.
       returnM (start_date + random_days * DAY + random_hours * HOUR
                  + random_minutes * MINUTE + random_seconds * SECOND)))))"

text \<open>
  \<^verbatim>\<open>standalone_calculate_date_range(cursor, table_name, days_from_max, start_date)\<close>.
  The arguments of the model: the result of \<^verbatim>\<open>SELECT MAX(created_at)\<close> on the table
  (\<open>None\<close> for an empty table), the value of \<^verbatim>\<open>datetime.now()\<close>, the window length, and
  the explicit start date already parsed (\<open>None\<close> when absent or empty).  The driver
  returns the maximum as a datetime; the branch that parses a string maximum is left out.
\<close>

definition standalone_calculate_date_range ::
  "datetime option \<Rightarrow> datetime \<Rightarrow> int \<Rightarrow> datetime option \<Rightarrow> datetime \<times> datetime" where
  "standalone_calculate_date_range table_max now days_from_max start_date =
     (case start_date of
        Some start_datetime \<Rightarrow> (start_datetime, start_datetime + days_from_max * DAY)
      | None \<Rightarrow>
          (let max_date = (case table_max of Some m \<Rightarrow> m | None \<Rightarrow> now)
           in (max_date, max_date + days_from_max * DAY)))"

text \<open>
  The method \<^verbatim>\<open>calculate_date_range(self, table_name, days_from_max, start_date)\<close> of the
  older populator class.  \<open>default_start\<close> is the parsed constant \<^verbatim>\<open>2025-06-01\<close>.
\<close>

definition calculate_date_range ::
  "datetime \<Rightarrow> datetime option \<Rightarrow> datetime \<Rightarrow> int \<Rightarrow> datetime option \<Rightarrow> datetime \<times> datetime" where
  "calculate_date_range default_start max_created_at current_time days_from_max start_date =
     (let start_datetime =
            (case max_created_at of
               None \<Rightarrow> (case start_date of Some s \<Rightarrow> s | None \<Rightarrow> default_start)
             | Some m \<Rightarrow> m + 1 * MINUTE);
          end_datetime = start_datetime + days_from_max * DAY;
          end_datetime = (if end_datetime > current_time then current_time else end_datetime)
      in if end_datetime \<le> start_datetime
         then (let end_datetime = start_datetime + 1 * HOUR
               in if end_datetime > current_time
                  then (current_time - 1 * HOUR, current_time)
                  else (start_datetime, end_datetime))
         else (start_datetime, end_datetime))"

section \<open>The data of the order lifecycle\<close>

text \<open>Money is a whole number of cents: prices come from a \<^verbatim>\<open>DECIMAL(10,2)\<close> column and
  every amount the engine stores has been rounded to two decimals.\<close>

type_synonym money = int

text \<open>A value of the dictionary \<^verbatim>\<open>product_data\<close>: \<^verbatim>\<open>{'created_at': ..., 'price': ...}\<close>.\<close>

record product =
  created_at :: datetime
  price :: money

text \<open>An entry of \<^verbatim>\<open>order['items']\<close>.\<close>

record item =
  item_product_id :: int
  item_quantity :: int
  item_unit_price :: money
  item_created_at :: datetime

text \<open>The logical order identifier \<^verbatim>\<open>f"{timestamp_str}-{counter:06d}"\<close>: the pair of the
  rendered second and the counter (the rendering of the pair is one-to-one).\<close>

type_synonym order_id = "int \<times> nat"

text \<open>An entry of \<^verbatim>\<open>pending_orders\<close>.\<close>

record order =
  order_id :: order_id
  order_customer_id :: int
  order_date :: datetime
  order_total_amount :: money
  order_has_items :: bool
  order_items :: "item list"

text \<open>A row of \<^verbatim>\<open>all_order_records\<close>:
  \<^verbatim>\<open>(order_id, customer_id, order_date, status, total_amount, created_at)\<close>.\<close>

record order_record =
  rec_id :: order_id
  rec_customer_id :: int
  rec_order_date :: datetime
  rec_status :: string
  rec_total_amount :: money
  rec_created_at :: datetime

text \<open>A row of \<^verbatim>\<open>all_item_records\<close>:
  \<^verbatim>\<open>(order_id, product_id, quantity, unit_price, created_at)\<close>.\<close>

record item_record =
  ir_order_id :: order_id
  ir_product_id :: int
  ir_quantity :: int
  ir_unit_price :: money
  ir_created_at :: datetime

text \<open>What the engine hands to the persistence layer, or the reported precondition
  failure (\<^verbatim>\<open>return False\<close>).\<close>

datatype outcome =
  NoCustomers
| NoProducts
| Generated "order_record list" "item_record list"

section \<open>The new-lifecycle engine\<close>

subsection \<open>Stage 1: pending orders\<close>

fun create_pending_orders ::
  "nat \<Rightarrow> int list \<Rightarrow> datetime \<Rightarrow> datetime \<Rightarrow> order list \<Rightarrow> (int \<rightharpoonup> nat) \<Rightarrow> (order list) rand" where
  "create_pending_orders 0 customer_ids start_datetime end_datetime pending_orders order_counters =
     returnM pending_orders"
| "create_pending_orders (Suc n) customer_ids start_datetime end_datetime pending_orders order_counters =
     bindM (random_choice customer_ids) (\<lambda>customer_id.
     bindM (generate_random_timestamp start_datetime end_datetime) (\<lambda>original_order_date.
       (let timestamp_str = strftime original_order_date;
            counter = (case order_counters timestamp_str of None \<Rightarrow> 1 | Some c \<Rightarrow> c + 1)
        in create_pending_orders n customer_ids start_datetime end_datetime
             (pending_orders @
                [\<lparr>order_id = (timestamp_str, counter), order_customer_id = customer_id,
                  order_date = original_order_date, order_total_amount = 0,
                  order_has_items = False, order_items = []\<rparr>])
             (order_counters(timestamp_str \<mapsto> counter)))))"

subsection \<open>Stage 2: order items\<close>

text \<open>The loop \<^verbatim>\<open>while attempts < 10\<close> that looks for a product not yet in the order;
  \<open>None\<close> when it ends without \<^verbatim>\<open>break\<close>.\<close>

function try_unique_product :: "int list \<Rightarrow> int set \<Rightarrow> nat \<Rightarrow> (int option) rand" where
  "try_unique_product eligible_products products_in_order attempts =
     (if attempts < 10
      then bindM (random_choice eligible_products) (\<lambda>temp_product_id.
             if temp_product_id \<notin> products_in_order \<or> length eligible_products = 1
             then returnM (Some temp_product_id)
             else try_unique_product eligible_products products_in_order (attempts + 1))
      else returnM None)"
  by pat_completeness auto
termination
  by (relation "measure (\<lambda>(e, p, attempts). 10 - attempts)") auto

declare try_unique_product.simps [simp del]

definition choose_product :: "int list \<Rightarrow> int set \<Rightarrow> int rand" where
  "choose_product eligible_products products_in_order =
     bindM (try_unique_product eligible_products products_in_order 0) (\<lambda>product_id.
       case product_id of
         Some p \<Rightarrow> returnM p
       | None \<Rightarrow> random_choice eligible_products)"

text \<open>One pass of the loop \<^verbatim>\<open>for _ in range(num_items)\<close>: the new item and the updated
  set \<^verbatim>\<open>products_in_order\<close>.\<close>

definition create_item ::
  "(int \<times> product) list \<Rightarrow> int list \<Rightarrow> datetime \<Rightarrow> int set \<Rightarrow> (item \<times> int set) rand" where
  "create_item product_data eligible_products order_date' products_in_order =
     bindM (choose_product eligible_products products_in_order) (\<lambda>product_id.
     bindM (random_randint 1 3) (\<lambda>quantity.
       case map_of product_data product_id of
         None \<Rightarrow> raise KeyError
       | Some p \<Rightarrow>
     (let catalog_price = of_int (price p) in
     bindM random_random (\<lambda>u.
     bindM (if u < 1 / 10
            then bindM (random_uniform (1 / 10) (3 / 10)) (\<lambda>discount.
                   returnM (catalog_price * (1 - discount)))
            else returnM catalog_price) (\<lambda>unit_price.
     (let unit_price = py_round unit_price in
     bindM (random_randint 1 60) (\<lambda>minutes.
     bindM (random_randint 0 59) (\<lambda>seconds.
       returnM (\<lparr>item_product_id = product_id, item_quantity = quantity,
                  item_unit_price = unit_price,
                  item_created_at = order_date' + minutes * MINUTE + seconds * SECOND\<rparr>,
                insert product_id products_in_order)))))))))"

fun create_items ::
  "nat \<Rightarrow> (int \<times> product) list \<Rightarrow> int list \<Rightarrow> datetime \<Rightarrow> item list \<Rightarrow> int set \<Rightarrow> money
     \<Rightarrow> (item list \<times> money) rand" where
  "create_items 0 product_data eligible_products order_date' items products_in_order order_total =
     returnM (items, order_total)"
| "create_items (Suc n) product_data eligible_products order_date' items products_in_order order_total =
     bindM (create_item product_data eligible_products order_date' products_in_order)
       (\<lambda>(it, products_in_order').
          create_items n product_data eligible_products order_date' (items @ [it])
            products_in_order' (order_total + item_quantity it * item_unit_price it))"

text \<open>The body of the loop \<^verbatim>\<open>for order in orders_to_get_items\<close>: the order as it is after
  the pass.\<close>

definition eligible_products_at :: "(int \<times> product) list \<Rightarrow> datetime \<Rightarrow> int list" where
  "eligible_products_at product_data order_date' =
     map fst (filter (\<lambda>(pid, pdata). created_at pdata \<le> order_date') product_data)"

definition add_items_to_order :: "(int \<times> product) list \<Rightarrow> int \<Rightarrow> order \<Rightarrow> order rand" where
  "add_items_to_order product_data max_items_per_order ord =
     (let eligible_products = eligible_products_at product_data (order_date ord)
      in if eligible_products = [] then returnM ord
         else bindM (random_randint 1 max_items_per_order) (\<lambda>num_items.
              bindM (create_items (nat num_items) product_data eligible_products (order_date ord)
                       (order_items ord) {} 0) (\<lambda>(items, order_total).
                returnM (ord\<lparr>order_items := items, order_has_items := True,
                             order_total_amount := order_total\<rparr>))))"

text \<open>The sampled orders are the objects of \<^verbatim>\<open>pending_orders\<close> themselves: the loop
  updates the list at the sampled positions.\<close>

fun create_order_items ::
  "nat list \<Rightarrow> (int \<times> product) list \<Rightarrow> int \<Rightarrow> order list \<Rightarrow> (order list) rand" where
  "create_order_items [] product_data max_items_per_order pending_orders = returnM pending_orders"
| "create_order_items (i # positions) product_data max_items_per_order pending_orders =
     bindM (add_items_to_order product_data max_items_per_order (pending_orders ! i)) (\<lambda>ord.
       create_order_items positions product_data max_items_per_order (pending_orders[i := ord]))"

subsection \<open>Stages 3 and 4: final statuses\<close>

text \<open>\<^verbatim>\<open>random.sample(xs, k) if xs else []\<close>, as the list of the sampled elements.\<close>

definition sample_if_nonempty :: "'a list \<Rightarrow> int \<Rightarrow> ('a list) rand" where
  "sample_if_nonempty xs k =
     (if xs \<noteq> [] then bindM (random_sample (length xs) k) (\<lambda>positions.
                         returnM (map (\<lambda>i. xs ! i) positions))
      else returnM [])"

subsection \<open>Record materialisation\<close>

text \<open>The guard that follows each later-stage timestamp:
  \<^verbatim>\<open>if t > end_datetime: t = end_datetime - timedelta(hours=random.randint(1, 12))\<close>.\<close>

definition clamp_to_end :: "datetime \<Rightarrow> datetime \<Rightarrow> datetime rand" where
  "clamp_to_end t end_datetime =
     (if t > end_datetime
      then bindM (random_randint 1 12) (\<lambda>hours. returnM (end_datetime - hours * HOUR))
      else returnM t)"

definition order_row :: "order \<Rightarrow> string \<Rightarrow> datetime \<Rightarrow> order_record" where
  "order_row ord status t =
     \<lparr>rec_id = order_id ord, rec_customer_id = order_customer_id ord,
      rec_order_date = order_date ord, rec_status = status,
      rec_total_amount = order_total_amount ord, rec_created_at = t\<rparr>"

definition item_row :: "order_id \<Rightarrow> item \<Rightarrow> item_record" where
  "item_row oid it =
     \<lparr>ir_order_id = oid, ir_product_id = item_product_id it, ir_quantity = item_quantity it,
      ir_unit_price = item_unit_price it, ir_created_at = item_created_at it\<rparr>"

text \<open>The status progression records of one order; \<^verbatim>\<open>order in completed_orders\<close> compares
  the dictionaries by value.\<close>

definition status_progression ::
  "order \<Rightarrow> order list \<Rightarrow> order list \<Rightarrow> datetime \<Rightarrow> (order_record list) rand" where
  "status_progression ord completed_orders refunded_orders end_datetime =
     (if ord \<in> set completed_orders
      then bindM (random_randint 1 4) (\<lambda>days.
           bindM (clamp_to_end (order_date ord + days * DAY) end_datetime) (\<lambda>completed_at.
             if ord \<in> set refunded_orders
             then bindM (random_randint 1 2) (\<lambda>days'.
                  bindM (clamp_to_end (completed_at + days' * DAY) end_datetime) (\<lambda>refunded_at.
                    returnM [order_row ord ''completed'' completed_at,
                             order_row ord ''refunded'' refunded_at]))
             else returnM [order_row ord ''completed'' completed_at]))
      else bindM (random_randint 1 4) (\<lambda>days.
           bindM (clamp_to_end (order_date ord + days * DAY) end_datetime) (\<lambda>cancelled_at.
             returnM [order_row ord ''cancelled'' cancelled_at])))"

fun materialize_records ::
  "order list \<Rightarrow> order list \<Rightarrow> order list \<Rightarrow> datetime \<Rightarrow> order_record list \<Rightarrow> item_record list
     \<Rightarrow> (order_record list \<times> item_record list) rand" where
  "materialize_records [] completed_orders refunded_orders end_datetime
     all_order_records all_item_records = returnM (all_order_records, all_item_records)"
| "materialize_records (ord # orders) completed_orders refunded_orders end_datetime
     all_order_records all_item_records =
     bindM (status_progression ord completed_orders refunded_orders end_datetime) (\<lambda>progression.
       materialize_records orders completed_orders refunded_orders end_datetime
         (all_order_records @ [order_row ord ''pending'' (order_date ord)] @ progression)
         (all_item_records @ map (item_row (order_id ord)) (order_items ord)))"

subsection \<open>The engine\<close>

text \<open>The dictionary comprehension over the rows \<^verbatim>\<open>(id, created_at, price)\<close> of the product
  table: a later row with the same key replaces the value and keeps the position.\<close>

definition product_data_of :: "(int \<times> datetime \<times> money) list \<Rightarrow> (int \<times> product) list" where
  "product_data_of rows =
     foldl (\<lambda>d (pid, c, p). AList.update pid \<lparr>created_at = c, price = p\<rparr> d) [] rows"

text \<open>The window of the engine: the range of the orders table, its start moved after the
  earliest product.\<close>

definition order_window ::
  "(int \<times> product) list \<Rightarrow> datetime option \<Rightarrow> datetime \<Rightarrow> int \<Rightarrow> datetime option
     \<Rightarrow> datetime \<times> datetime" where
  "order_window product_data orders_max now days start_date =
     (case standalone_calculate_date_range orders_max now days start_date of
        (start_datetime, end_datetime) \<Rightarrow>
          (let min_product_time = min_list (map (\<lambda>(pid, pdata). created_at pdata) product_data)
           in (if min_product_time > start_datetime then min_product_time + 1 * MINUTE
               else start_datetime, end_datetime)))"

text \<open>
  \<^verbatim>\<open>populate_orders_and_items_new_lifecycle(ctx, num_orders, max_items_per_order, days,
  start_date)\<close>, up to the insertion.  The store is read through three queries, whose
  results are arguments: the customer ids, the product rows and the maximum
  \<^verbatim>\<open>created_at\<close> of the orders table; \<open>now\<close> is \<^verbatim>\<open>datetime.now()\<close>.  The connection
  is open (the source returns \<^verbatim>\<open>False\<close> at once otherwise).  The result is the exception
  raised before the insertion, the reported precondition failure, or the rows handed to
  the two bulk inserts.
\<close>

definition populate_orders_and_items_new_lifecycle ::
  "int list \<Rightarrow> (int \<times> datetime \<times> money) list \<Rightarrow> datetime option \<Rightarrow> datetime
     \<Rightarrow> int \<Rightarrow> int \<Rightarrow> int \<Rightarrow> datetime option \<Rightarrow> outcome rand" where
  "populate_orders_and_items_new_lifecycle customer_ids product_rows orders_max now
     num_orders max_items_per_order days start_date =
     (if customer_ids = [] then returnM NoCustomers
      else (let product_data = product_data_of product_rows
      in if product_data = [] then returnM NoProducts
      else (case order_window product_data orders_max now days start_date of
        (start_datetime, end_datetime) \<Rightarrow>
     bindM (create_pending_orders (nat num_orders) customer_ids start_datetime end_datetime
              [] Map.empty) (\<lambda>pending_orders.
     bindM (random_uniform (85 / 100) 1) (\<lambda>item_rate.
     bindM (random_sample (length pending_orders) (py_int (of_int num_orders * item_rate)))
       (\<lambda>orders_to_get_items.
     bindM (create_order_items orders_to_get_items product_data max_items_per_order
              pending_orders) (\<lambda>pending_orders.
     (let orders_with_items = filter order_has_items pending_orders in
     bindM (random_uniform (90 / 100) 1) (\<lambda>completion_rate.
     bindM (sample_if_nonempty orders_with_items
              (py_int (of_nat (length orders_with_items) * completion_rate)))
       (\<lambda>completed_orders.
     bindM (random_uniform (5 / 100) (10 / 100)) (\<lambda>refund_rate.
     bindM (sample_if_nonempty completed_orders
              (py_int (of_nat (length completed_orders) * refund_rate)))
       (\<lambda>refunded_orders.
     bindM (materialize_records pending_orders completed_orders refunded_orders end_datetime
              [] []) (\<lambda>(all_order_records, all_item_records).
       returnM (Generated all_order_records all_item_records))))))))))))))"

text \<open>Stages 1 and 2 of the engine on their own, for a store with customers and products:
  the orders as the item stage leaves them, together with the random source as stage 3
  finds it.\<close>

definition orders_after_item_stage ::
  "int list \<Rightarrow> (int \<times> datetime \<times> money) list \<Rightarrow> datetime option \<Rightarrow> datetime
     \<Rightarrow> int \<Rightarrow> int \<Rightarrow> int \<Rightarrow> datetime option \<Rightarrow> (order list) rand" where
  "orders_after_item_stage customer_ids product_rows orders_max now
     num_orders max_items_per_order days start_date =
     (let product_data = product_data_of product_rows
      in case order_window product_data orders_max now days start_date of
        (start_datetime, end_datetime) \<Rightarrow>
     bindM (create_pending_orders (nat num_orders) customer_ids start_datetime end_datetime
              [] Map.empty) (\<lambda>pending_orders.
     bindM (random_uniform (85 / 100) 1) (\<lambda>item_rate.
     bindM (random_sample (length pending_orders) (py_int (of_int num_orders * item_rate)))
       (\<lambda>orders_to_get_items.
       create_order_items orders_to_get_items product_data max_items_per_order
         pending_orders))))"

section \<open>The customer generator\<close>

text \<open>The Faker instance is modelled like the random source: the list of the strings it
  will deliver, one per call; an exhausted list keeps delivering the empty string.\<close>

type_synonym faker = "string list"

fun fake :: "faker \<Rightarrow> string \<times> faker" where
  "fake [] = ([], [])"
| "fake (s # f) = (s, f)"

text \<open>A row of \<^verbatim>\<open>rows\<close> in \<^verbatim>\<open>populate_customers\<close>:
  \<^verbatim>\<open>(name, email, country, signup_date, created_at)\<close>.\<close>

record customer_row =
  cust_name :: string
  cust_email :: string
  cust_country :: string
  cust_signup_date :: int
  cust_created_at :: datetime

text \<open>The loop \<^verbatim>\<open>while email in existing_emails and tries < 50\<close>.\<close>

function retry_email :: "string \<Rightarrow> string set \<Rightarrow> nat \<Rightarrow> faker \<Rightarrow> string \<times> faker" where
  "retry_email email existing_emails tries f =
     (if email \<in> existing_emails \<and> tries < 50
      then (case fake f of (email', f') \<Rightarrow> retry_email email' existing_emails (tries + 1) f')
      else (email, f))"
  by pat_completeness auto
termination
  by (relation "measure (\<lambda>(email, existing, tries, f). 50 - tries)") auto

declare retry_email.simps [simp del]

text \<open>The loop \<^verbatim>\<open>for _ in range(num_records)\<close>.\<close>

fun customer_rows ::
  "nat \<Rightarrow> datetime \<Rightarrow> datetime \<Rightarrow> string set \<Rightarrow> customer_row list \<Rightarrow> faker
     \<Rightarrow> (customer_row list) rand" where
  "customer_rows 0 start_dt end_dt existing_emails rows f = returnM rows"
| "customer_rows (Suc n) start_dt end_dt existing_emails rows f =
     (case fake f of (name, f1) \<Rightarrow>
     (case fake f1 of (email, f2) \<Rightarrow>
     (case retry_email email existing_emails 0 f2 of (email, f3) \<Rightarrow>
     (case fake f3 of (country, f4) \<Rightarrow>
       bindM (random_timestamp start_dt end_dt) (\<lambda>signup.
       bindM (random_timestamp start_dt end_dt) (\<lambda>created.
         customer_rows n start_dt end_dt (insert email existing_emails)
           (rows @ [\<lparr>cust_name = name, cust_email = email, cust_country = country,
                      cust_signup_date = date_of signup, cust_created_at = created\<rparr>])
           f4))))))"

text \<open>
  \<^verbatim>\<open>populate_customers(ctx, num_records, days_from_max, start_date)\<close>, up to the insertion:
  the rows handed to the bulk insert.  \<open>customers_max\<close> and \<open>persisted_emails\<close> are the
  results of the two queries on the customers table.
\<close>

definition populate_customers ::
  "datetime option \<Rightarrow> string list \<Rightarrow> datetime \<Rightarrow> int \<Rightarrow> int \<Rightarrow> datetime option \<Rightarrow> faker
     \<Rightarrow> (customer_row list) rand" where
  "populate_customers customers_max persisted_emails now num_records days_from_max start_date f =
     (if num_records \<le> 0 then returnM []
      else (case standalone_calculate_date_range customers_max now days_from_max start_date of
              (start_dt, end_dt) \<Rightarrow>
                customer_rows (nat num_records) start_dt end_dt (set persisted_emails) [] f))"

section \<open>Reading the generated tables\<close>

text \<open>The physical status records and the items of one logical order, selected by the
  logical identifier as a query on the two tables would.\<close>

definition records_of :: "order_id \<Rightarrow> order_record list \<Rightarrow> order_record list" where
  "records_of oid recs = filter (\<lambda>r. rec_id r = oid) recs"

definition items_of :: "order_id \<Rightarrow> item_record list \<Rightarrow> item_record list" where
  "items_of oid irecs = filter (\<lambda>i. ir_order_id i = oid) irecs"

definition with_status :: "string \<Rightarrow> order_record list \<Rightarrow> order_record list" where
  "with_status st recs = filter (\<lambda>r. rec_status r = st) recs"

definition line_total :: "item_record \<Rightarrow> money" where
  "line_total i = ir_quantity i * ir_unit_price i"

section \<open>Invariants of the stages\<close>

text \<open>An order as stage 1 creates it.\<close>

definition fresh :: "order \<Rightarrow> bool" where
  "fresh ord \<longleftrightarrow> order_items ord = [] \<and> \<not> order_has_items ord \<and> order_total_amount ord = 0"

text \<open>Every identifier handed out so far is accounted for by the counter of its second.\<close>

definition counters_cover :: "(int \<rightharpoonup> nat) \<Rightarrow> order list \<Rightarrow> bool" where
  "counters_cover order_counters orders \<longleftrightarrow>
     (\<forall>ord \<in> set orders. \<exists>c. order_counters (fst (order_id ord)) = Some c \<and> snd (order_id ord) \<le> c)"

text \<open>An order after stage 2: its total is the sum of its line totals, it is flagged
  exactly when it has items, and each item comes after the order and refers to a product of
  the catalogue that existed when the order was placed.\<close>

definition order_consistent :: "(int \<times> product) list \<Rightarrow> order \<Rightarrow> bool" where
  "order_consistent product_data ord \<longleftrightarrow>
     order_total_amount ord
       = sum_list (map (\<lambda>it. item_quantity it * item_unit_price it) (order_items ord))
     \<and> (order_has_items ord \<longleftrightarrow> order_items ord \<noteq> [])
     \<and> (\<forall>it \<in> set (order_items ord).
           order_date ord < item_created_at it
           \<and> (\<exists>p. map_of product_data (item_product_id it) = Some p
                    \<and> created_at p \<le> order_date ord))"

text \<open>An item created for an order placed at \<open>od\<close>.\<close>

definition item_ok :: "(int \<times> product) list \<Rightarrow> datetime \<Rightarrow> item \<Rightarrow> bool" where
  "item_ok pd od it \<longleftrightarrow>
     od < item_created_at it
     \<and> (\<exists>p. map_of pd (item_product_id it) = Some p \<and> created_at p \<le> od)"

text \<open>The item rows of an order, and the status records the materialisation may emit for
  it: the pending row, then a status progression for some state of the random source.\<close>

definition order_item_rows :: "order \<Rightarrow> item_record list" where
  "order_item_rows ord = map (item_row (order_id ord)) (order_items ord)"

definition lifecycle_records ::
  "order list \<Rightarrow> order list \<Rightarrow> datetime \<Rightarrow> order \<Rightarrow> order_record list \<Rightarrow> bool" where
  "lifecycle_records completed_orders refunded_orders end_datetime ord recs \<longleftrightarrow>
     (\<exists>g g' progression.
        status_progression ord completed_orders refunded_orders end_datetime g
          = Inr (progression, g')
        \<and> recs = order_row ord ''pending'' (order_date ord) # progression)"

text \<open>The timestamp of a later stage that follows a stage at \<open>t0\<close> by \<open>lo\<close> to \<open>hi\<close> days:
  either that time, when it does not exceed the end of the window, or 1 to 12 hours before
  the end of the window.\<close>

definition later_stage :: "datetime \<Rightarrow> int \<Rightarrow> int \<Rightarrow> datetime \<Rightarrow> datetime \<Rightarrow> bool" where
  "later_stage end_datetime lo hi t0 t \<longleftrightarrow>
     (\<exists>d. lo \<le> d \<and> d \<le> hi
        \<and> (if t0 + d * DAY > end_datetime
            then (\<exists>h. 1 \<le> h \<and> h \<le> 12 \<and> t = end_datetime - h * HOUR)
            else t = t0 + d * DAY))"

section \<open>An example run\<close>

text \<open>One customer, one product created at time 0 at 5.00, three orders of at most one
  item, a window of 7 days from the explicit start date 0.  The draws place the first order
  one second before the end of the window, the second one hour after its start and the
  third 23 hours after its end; the first two orders receive an item (each with the 10 %
  markdown) and the second is completed.\<close>

definition example_rng :: rng where
  "example_rng =
     [0, 6, 23, 59, 59,  0, 0, 1, 0, 0,  0, 7, 23, 0, 0,
      0,  0, 0,  0, 0, 0, 0, 0, 0, 0,  0, 0, 1, 0, 0, 0, 0,  0,  1]"

definition example_order_records :: "order_record list" where
  "example_order_records =
     [\<lparr>rec_id = (604799, 1), rec_customer_id = 7, rec_order_date = 604799000000,
        rec_status = ''pending'', rec_total_amount = 450, rec_created_at = 604799000000\<rparr>,
      \<lparr>rec_id = (604799, 1), rec_customer_id = 7, rec_order_date = 604799000000,
        rec_status = ''cancelled'', rec_total_amount = 450, rec_created_at = 601200000000\<rparr>,
      \<lparr>rec_id = (3600, 1), rec_customer_id = 7, rec_order_date = 3600000000,
        rec_status = ''pending'', rec_total_amount = 900, rec_created_at = 3600000000\<rparr>,
      \<lparr>rec_id = (3600, 1), rec_customer_id = 7, rec_order_date = 3600000000,
        rec_status = ''completed'', rec_total_amount = 900, rec_created_at = 90000000000\<rparr>,
      \<lparr>rec_id = (687600, 1), rec_customer_id = 7, rec_order_date = 687600000000,
        rec_status = ''pending'', rec_total_amount = 0, rec_created_at = 687600000000\<rparr>,
      \<lparr>rec_id = (687600, 1), rec_customer_id = 7, rec_order_date = 687600000000,
        rec_status = ''cancelled'', rec_total_amount = 0, rec_created_at = 601200000000\<rparr>]"

definition example_item_records :: "item_record list" where
  "example_item_records =
     [\<lparr>ir_order_id = (604799, 1), ir_product_id = 1, ir_quantity = 1, ir_unit_price = 450,
        ir_created_at = 604859000000\<rparr>,
      \<lparr>ir_order_id = (3600, 1), ir_product_id = 1, ir_quantity = 2, ir_unit_price = 450,
        ir_created_at = 3660000000\<rparr>]"


section \<open>Basic facts about the random source\<close>

lemma bindM_Inr_iff:
  "bindM m f g = Inr r \<longleftrightarrow> (\<exists>x g'. m g = Inr (x, g') \<and> f x g' = Inr r)"
  by (auto simp: bindM_def split: sum.splits)

lemma returnM_Inr_iff: "returnM x g = Inr r \<longleftrightarrow> r = (x, g)"
  by (auto simp: returnM_def)

lemma random_choice_ok:
  "xs \<noteq> [] \<Longrightarrow> \<exists>x g'. random_choice xs g = Inr (x, g') \<and> x \<in> set xs"
  by (cases g) (auto simp: random_choice_def)

lemma random_randint_range:
  assumes "random_randint a b g = Inr (x, g')"
  shows "a \<le> x \<and> x \<le> b"
proof -
  obtain r g1 where d: "draw g = (r, g1)" by (cases "draw g")
  from assms d have ab: "a \<le> b" and x: "x = a + int r mod (b - a + 1)"
    by (auto simp: random_randint_def split: if_splits)
  have "0 < b - a + 1" using ab by simp
  then have "0 \<le> int r mod (b - a + 1)" "int r mod (b - a + 1) < b - a + 1"
    by (rule pos_mod_sign, rule pos_mod_bound)
  then show ?thesis using x by linarith
qed

lemma random_choice_mem: "random_choice xs g = Inr (x, g') \<Longrightarrow> x \<in> set xs"
  by (cases "draw g") (auto simp: random_choice_def split: if_splits)

lemma random_random_range: "random_random g = Inr (u, g') \<Longrightarrow> 0 \<le> u \<and> u < 1"
  by (cases "draw g") (auto simp: random_random_def)

lemma random_uniform_range:
  assumes "a \<le> b" and "random_uniform a b g = Inr (x, g')"
  shows "a \<le> x \<and> x \<le> b"
proof -
  from assms(2) obtain u g1 where "random_random g = Inr (u, g1)" and x: "x = a + (b - a) * u"
    by (auto simp: random_uniform_def bindM_Inr_iff returnM_Inr_iff)
  then have u: "0 \<le> u" "u < 1" using random_random_range by blast+
  have "0 \<le> (b - a) * u" using assms(1) u by simp
  moreover have "(b - a) * u \<le> (b - a) * 1"
    using assms(1) u by (intro mult_left_mono) auto
  ultimately show ?thesis using x by simp
qed


lemma set_remove_nth: "set (remove_nth j xs) \<subseteq> set xs"
  by (auto simp: remove_nth_def dest: in_set_takeD in_set_dropD)

lemma distinct_remove_nth: "distinct xs \<Longrightarrow> distinct (remove_nth j xs)"
  by (simp add: remove_nth_def set_take_disj_set_drop_if_distinct)

lemma nth_notin_remove_nth:
  assumes "distinct xs" and "j < length xs"
  shows "xs ! j \<notin> set (remove_nth j xs)"
proof -
  have "distinct (take j xs @ xs ! j # drop (Suc j) xs)"
    using assms by (simp add: id_take_nth_drop[symmetric])
  then show ?thesis by (auto simp: remove_nth_def)
qed

lemma length_remove_nth: "j < length xs \<Longrightarrow> length (remove_nth j xs) = length xs - 1"
  by (auto simp: remove_nth_def)

lemma pick_positions_props:
  "distinct pool \<Longrightarrow> pick_positions k pool g = (ps, g') \<Longrightarrow>
     distinct ps \<and> set ps \<subseteq> set pool \<and> length ps = min k (length pool)"
proof (induction k arbitrary: pool g ps g')
  case 0
  then show ?case by simp
next
  case (Suc k)
  show ?case
  proof (cases "pool = []")
    case True
    with Suc.prems show ?thesis by simp
  next
    case False
    obtain r g1 where d: "draw g = (r, g1)" by (cases "draw g")
    define j where "j = r mod length pool"
    obtain rest g2 where rec: "pick_positions k (remove_nth j pool) g1 = (rest, g2)"
      by (cases "pick_positions k (remove_nth j pool) g1")
    have j: "j < length pool" using False by (simp add: j_def)
    have ps: "ps = pool ! j # rest"
      using Suc.prems(2) False d rec unfolding j_def by simp
    note ih = Suc.IH[OF distinct_remove_nth[OF Suc.prems(1)] rec]
    have 1: "distinct ps"
      using ih nth_notin_remove_nth[OF Suc.prems(1) j] ps by auto
    have 2: "set ps \<subseteq> set pool"
      using ih set_remove_nth[of j pool] j ps by auto
    have 3: "length ps = min (Suc k) (length pool)"
      using ih length_remove_nth[OF j] j ps by (auto simp: min_def)
    show ?thesis using 1 2 3 by blast
  qed
qed

lemma random_sample_props:
  assumes "random_sample n k g = Inr (ps, g')"
  shows "distinct ps \<and> (\<forall>i \<in> set ps. i < n) \<and> int (length ps) = k"
proof -
  from assms have k: "0 \<le> k" "k \<le> int n" and p: "pick_positions (nat k) [0..<n] g = (ps, g')"
    by (auto simp: random_sample_def split: if_splits)
  from pick_positions_props[OF _ p] have "distinct ps" "set ps \<subseteq> {0..<n}"
    "length ps = min (nat k) n" by auto
  then show ?thesis using k by (auto simp: min_def)
qed


section \<open>Stage 1: the identifiers are distinct\<close>

lemma create_pending_orders_props:
  "create_pending_orders n customer_ids s e pending order_counters g = Inr (res, g') \<Longrightarrow>
   distinct (map order_id pending) \<Longrightarrow> counters_cover order_counters pending \<Longrightarrow>
   \<forall>ord \<in> set pending. fresh ord \<Longrightarrow>
     distinct (map order_id res) \<and> (\<forall>ord \<in> set res. fresh ord)
     \<and> length res = length pending + n"
proof (induction n arbitrary: pending order_counters g)
  case 0
  then show ?case by (simp add: returnM_Inr_iff)
next
  case (Suc n)
  from Suc.prems(1) obtain cid g1 od g2 where
    rec: "create_pending_orders n customer_ids s e
            (pending @ [\<lparr>order_id = (strftime od,
                 case order_counters (strftime od) of None \<Rightarrow> 1 | Some c \<Rightarrow> c + 1),
               order_customer_id = cid, order_date = od, order_total_amount = 0,
               order_has_items = False, order_items = []\<rparr>])
            (order_counters(strftime od \<mapsto>
               case order_counters (strftime od) of None \<Rightarrow> 1 | Some c \<Rightarrow> c + 1)) g2
          = Inr (res, g')"
    by (auto simp: bindM_Inr_iff Let_def)
  define ts where "ts = strftime od"
  define c where "c = (case order_counters ts of None \<Rightarrow> 1 | Some c \<Rightarrow> c + 1)"
  define new where "new = \<lparr>order_id = (ts, c), order_customer_id = cid, order_date = od,
     order_total_amount = 0, order_has_items = False, order_items = []\<rparr>"
  have rec': "create_pending_orders n customer_ids s e (pending @ [new])
                (order_counters(ts \<mapsto> c)) g2 = Inr (res, g')"
    using rec by (simp add: ts_def c_def new_def)
  have notin: "(ts, c) \<notin> set (map order_id pending)"
  proof
    assume "(ts, c) \<in> set (map order_id pending)"
    then obtain ord where o: "ord \<in> set pending" "order_id ord = (ts, c)" by auto
    with Suc.prems(3) obtain c' where "order_counters ts = Some c'" "c \<le> c'"
      by (fastforce simp: counters_cover_def)
    then show False by (simp add: c_def)
  qed
  have d: "distinct (map order_id (pending @ [new]))"
    using Suc.prems(2) notin by (simp add: new_def)
  have cov: "counters_cover (order_counters(ts \<mapsto> c)) (pending @ [new])"
    unfolding counters_cover_def
  proof
    fix ord assume "ord \<in> set (pending @ [new])"
    then consider "ord = new" | "ord \<in> set pending" by auto
    then show "\<exists>c'. (order_counters(ts \<mapsto> c)) (fst (order_id ord)) = Some c' \<and> snd (order_id ord) \<le> c'"
    proof cases
      case 1
      then show ?thesis by (simp add: new_def)
    next
      case 2
      with Suc.prems(3) obtain c' where c': "order_counters (fst (order_id ord)) = Some c'"
        "snd (order_id ord) \<le> c'" by (auto simp: counters_cover_def)
      show ?thesis
      proof (cases "fst (order_id ord) = ts")
        case True
        with c' show ?thesis by (simp add: c_def)
      next
        case False
        with c' show ?thesis by simp
      qed
    qed
  qed
  have fr: "\<forall>ord \<in> set (pending @ [new]). fresh ord"
    using Suc.prems(4) by (auto simp: new_def fresh_def)
  from Suc.IH[OF rec' d cov fr] show ?case by simp
qed

section \<open>Stage 2: items, totals and eligibility\<close>

lemma try_unique_product_mem:
  "try_unique_product el pio a g = Inr (Some p, g') \<Longrightarrow> p \<in> set el"
proof (induction el pio a arbitrary: g rule: try_unique_product.induct)
  case (1 el pio a)
  show ?case
  proof (cases "a < 10")
    case True
    with "1.prems" obtain t g1 where t: "random_choice el g = Inr (t, g1)"
      and r: "(if t \<notin> pio \<or> length el = 1 then returnM (Some t)
               else try_unique_product el pio (a + 1)) g1 = Inr (Some p, g')"
      by (subst (asm) try_unique_product.simps) (auto simp: bindM_Inr_iff)
    show ?thesis
    proof (cases "t \<notin> pio \<or> length el = 1")
      case c: True
      with r have "p = t" by (simp add: returnM_Inr_iff)
      then show ?thesis using random_choice_mem[OF t] by simp
    next
      case c: False
      with r have "try_unique_product el pio (a + 1) g1 = Inr (Some p, g')" by simp
      from "1.IH"[OF True c this] show ?thesis .
    qed
  next
    case False
    with "1.prems" show ?thesis
      by (subst (asm) try_unique_product.simps) (simp add: returnM_Inr_iff)
  qed
qed

lemma choose_product_mem:
  "choose_product el pio g = Inr (p, g') \<Longrightarrow> p \<in> set el"
  by (auto simp: choose_product_def bindM_Inr_iff returnM_Inr_iff split: option.splits
        dest: try_unique_product_mem random_choice_mem)

lemma eligible_products_at_lookup:
  assumes "distinct (map fst pd)" and "pid \<in> set (eligible_products_at pd od)"
  shows "\<exists>p. map_of pd pid = Some p \<and> created_at p \<le> od"
proof -
  from assms(2) obtain p where "(pid, p) \<in> set pd" "created_at p \<le> od"
    by (auto simp: eligible_products_at_def)
  then show ?thesis using assms(1) by (auto simp: map_of_eq_Some_iff)
qed

lemma create_item_props:
  assumes "distinct (map fst pd)"
    and "create_item pd (eligible_products_at pd od) od pio g = Inr ((it, pio'), g')"
  shows "item_ok pd od it"
proof -
  from assms(2) obtain pid g1 q g2 p u g3 up g4 mi g5 se g6 where
    pid: "choose_product (eligible_products_at pd od) pio g = Inr (pid, g1)"
    and p: "map_of pd pid = Some p"
    and mi: "random_randint 1 60 g4 = Inr (mi, g5)"
    and se: "random_randint 0 59 g5 = Inr (se, g6)"
    and it: "it = \<lparr>item_product_id = pid, item_quantity = q, item_unit_price = py_round up,
                   item_created_at = od + mi * MINUTE + se * SECOND\<rparr>"
    by (auto simp: create_item_def bindM_Inr_iff returnM_Inr_iff raise_def Let_def
          split: option.splits)
  from eligible_products_at_lookup[OF assms(1) choose_product_mem[OF pid]] p
  have c: "created_at p \<le> od" by auto
  from random_randint_range[OF mi] random_randint_range[OF se]
  have "od < od + mi * MINUTE + se * SECOND" by (simp add: MINUTE_def SECOND_def)
  then show ?thesis using p c by (simp add: item_ok_def it)
qed

lemma create_items_props:
  "distinct (map fst pd) \<Longrightarrow>
   create_items n pd (eligible_products_at pd od) od items pio tot g = Inr ((items', tot'), g') \<Longrightarrow>
     \<exists>new. items' = items @ new \<and> length new = n
       \<and> tot' = tot + sum_list (map (\<lambda>it. item_quantity it * item_unit_price it) new)
       \<and> (\<forall>it \<in> set new. item_ok pd od it)"
proof (induction n arbitrary: items pio tot g)
  case 0
  then show ?case by (simp add: returnM_Inr_iff)
next
  case (Suc n)
  from Suc.prems(2) obtain it pio1 g1 where
    it: "create_item pd (eligible_products_at pd od) od pio g = Inr ((it, pio1), g1)"
    and rec: "create_items n pd (eligible_products_at pd od) od (items @ [it]) pio1
                (tot + item_quantity it * item_unit_price it) g1 = Inr ((items', tot'), g')"
    by (auto simp: bindM_Inr_iff)
  from Suc.IH[OF Suc.prems(1) rec] obtain new where new: "items' = (items @ [it]) @ new"
    "length new = n"
    "tot' = tot + item_quantity it * item_unit_price it
                + sum_list (map (\<lambda>it. item_quantity it * item_unit_price it) new)"
    "\<forall>it \<in> set new. item_ok pd od it" by blast
  have "items' = items @ (it # new)" using new(1) by simp
  moreover have "length (it # new) = Suc n" using new(2) by simp
  moreover have "tot' = tot + sum_list (map (\<lambda>it. item_quantity it * item_unit_price it) (it # new))"
    using new(3) by simp
  moreover have "\<forall>x \<in> set (it # new). item_ok pd od x"
    using new(4) create_item_props[OF Suc.prems(1) it] by simp
  ultimately show ?case by blast
qed

lemma add_items_to_order_props:
  assumes "distinct (map fst pd)" and "fresh ord"
    and "add_items_to_order pd max_items ord g = Inr (ord', g')"
  shows "order_consistent pd ord' \<and> order_id ord' = order_id ord
         \<and> order_date ord' = order_date ord \<and> order_customer_id ord' = order_customer_id ord"
proof (cases "eligible_products_at pd (order_date ord) = []")
  case True
  with assms(3) have "ord' = ord" by (simp add: add_items_to_order_def returnM_Inr_iff)
  then show ?thesis using assms(2) by (simp add: order_consistent_def fresh_def)
next
  case False
  with assms(3) obtain k g1 items tot g2 where
    k: "random_randint 1 max_items g = Inr (k, g1)"
    and ci: "create_items (nat k) pd (eligible_products_at pd (order_date ord)) (order_date ord)
               (order_items ord) {} 0 g1 = Inr ((items, tot), g2)"
    and ord': "ord' = ord\<lparr>order_items := items, order_has_items := True,
                         order_total_amount := tot\<rparr>"
    by (auto simp: add_items_to_order_def bindM_Inr_iff returnM_Inr_iff Let_def)
  from create_items_props[OF assms(1) ci] obtain new where new:
    "items = order_items ord @ new" "length new = nat k"
    "tot = 0 + sum_list (map (\<lambda>it. item_quantity it * item_unit_price it) new)"
    "\<forall>it \<in> set new. item_ok pd (order_date ord) it" by blast
  have "1 \<le> k" using random_randint_range[OF k] by simp
  then have "new \<noteq> []" using new(2) by auto
  then show ?thesis
    using new assms(2) by (auto simp: order_consistent_def fresh_def ord' item_ok_def)
qed

lemma create_order_items_props:
  "distinct (map fst pd) \<Longrightarrow>
   create_order_items positions pd max_items pending g = Inr (res, g') \<Longrightarrow>
   distinct positions \<Longrightarrow> \<forall>i \<in> set positions. i < length pending \<and> fresh (pending ! i) \<Longrightarrow>
   \<forall>ord \<in> set pending. order_consistent pd ord \<Longrightarrow>
     (\<forall>ord \<in> set res. order_consistent pd ord) \<and> map order_id res = map order_id pending"
proof (induction positions arbitrary: pending g)
  case Nil
  then show ?case by (simp add: returnM_Inr_iff)
next
  case (Cons i positions)
  from Cons.prems(2) obtain ord' g1 where
    a: "add_items_to_order pd max_items (pending ! i) g = Inr (ord', g1)"
    and rec: "create_order_items positions pd max_items (pending[i := ord']) g1 = Inr (res, g')"
    by (auto simp: bindM_Inr_iff)
  have i: "i < length pending" "fresh (pending ! i)" "i \<notin> set positions" "distinct positions"
    using Cons.prems(3,4) by auto
  from add_items_to_order_props[OF Cons.prems(1) i(2) a]
  have o': "order_consistent pd ord'" "order_id ord' = order_id (pending ! i)" by auto
  have 1: "\<forall>j \<in> set positions. j < length (pending[i := ord']) \<and> fresh (pending[i := ord'] ! j)"
    using Cons.prems(4) i(3) by (auto simp: nth_list_update)
  have 2: "\<forall>ord \<in> set (pending[i := ord']). order_consistent pd ord"
    using Cons.prems(5) o'(1) set_update_subset_insert[of pending i ord'] by auto
  have 3: "map order_id (pending[i := ord']) = map order_id pending"
    using o'(2) i(1) by (simp add: map_update list_update_same_conv)
  from Cons.IH[OF Cons.prems(1) rec i(4) 1 2] 3 show ?case by simp
qed


section \<open>Stages 3 and 4: the samples\<close>

lemma sample_if_nonempty_props:
  assumes "sample_if_nonempty xs k g = Inr (ys, g')"
  shows "set ys \<subseteq> set xs \<and> (distinct xs \<longrightarrow> distinct ys)
         \<and> (int (length ys) = k \<or> xs = [] \<and> ys = [])"
proof (cases "xs = []")
  case True
  with assms show ?thesis by (simp add: sample_if_nonempty_def returnM_Inr_iff)
next
  case False
  with assms obtain ps g1 where ps: "random_sample (length xs) k g = Inr (ps, g1)"
    and ys: "ys = map (\<lambda>i. xs ! i) ps"
    by (auto simp: sample_if_nonempty_def bindM_Inr_iff returnM_Inr_iff)
  from random_sample_props[OF ps] have p: "distinct ps" "\<forall>i \<in> set ps. i < length xs"
    "int (length ps) = k" by auto
  have 1: "set ys \<subseteq> set xs" using p(2) ys by auto
  have 2: "distinct ys" if "distinct xs"
    unfolding ys using p(1,2) that by (auto simp: distinct_map inj_on_def nth_eq_iff_index_eq)
  show ?thesis using 1 2 p(3) ys by simp
qed

section \<open>Materialisation: the records of each order\<close>

lemma clamp_to_end_later:
  assumes "clamp_to_end (t0 + d * DAY) e g = Inr (t, g')" and "lo \<le> d" and "d \<le> hi"
  shows "later_stage e lo hi t0 t"
proof (cases "t0 + d * DAY > e")
  case True
  with assms(1) obtain h g1 where h: "random_randint 1 12 g = Inr (h, g1)" and t: "t = e - h * HOUR"
    by (auto simp: clamp_to_end_def bindM_Inr_iff returnM_Inr_iff)
  from random_randint_range[OF h] True t assms(2,3) show ?thesis
    unfolding later_stage_def by (intro exI[of _ d]) auto
next
  case False
  with assms(1) have "t = t0 + d * DAY" by (simp add: clamp_to_end_def returnM_Inr_iff)
  with False assms(2,3) show ?thesis unfolding later_stage_def by (intro exI[of _ d]) auto
qed

lemma lifecycle_records_cases:
  assumes "lifecycle_records completed refunded e ord recs"
  shows "(ord \<notin> set completed \<and>
           (\<exists>t. recs = [order_row ord ''pending'' (order_date ord), order_row ord ''cancelled'' t]
                \<and> later_stage e 1 4 (order_date ord) t))
       \<or> (ord \<in> set completed \<and> ord \<notin> set refunded \<and>
           (\<exists>t. recs = [order_row ord ''pending'' (order_date ord), order_row ord ''completed'' t]
                \<and> later_stage e 1 4 (order_date ord) t))
       \<or> (ord \<in> set completed \<and> ord \<in> set refunded \<and>
           (\<exists>t t'. recs = [order_row ord ''pending'' (order_date ord),
                            order_row ord ''completed'' t, order_row ord ''refunded'' t']
                \<and> later_stage e 1 4 (order_date ord) t \<and> later_stage e 1 2 t t'))"
proof -
  from assms obtain g g' p where sp: "status_progression ord completed refunded e g = Inr (p, g')"
    and recs: "recs = order_row ord ''pending'' (order_date ord) # p"
    by (auto simp: lifecycle_records_def)
  from sp obtain d g1 t g2 where d: "random_randint 1 4 g = Inr (d, g1)"
    and t: "clamp_to_end (order_date ord + d * DAY) e g1 = Inr (t, g2)"
    by (auto simp: status_progression_def bindM_Inr_iff split: if_splits)
  have lt: "later_stage e 1 4 (order_date ord) t"
    using clamp_to_end_later[OF t] random_randint_range[OF d] by simp
  consider (a) "ord \<notin> set completed" | (b) "ord \<in> set completed" "ord \<notin> set refunded"
    | (c) "ord \<in> set completed" "ord \<in> set refunded" by blast
  then show ?thesis
  proof cases
    case a
    with sp d t have "p = [order_row ord ''cancelled'' t]"
      by (auto simp: status_progression_def bindM_Inr_iff returnM_Inr_iff)
    with a lt recs show ?thesis by blast
  next
    case b
    with sp d t have "p = [order_row ord ''completed'' t]"
      by (auto simp: status_progression_def bindM_Inr_iff returnM_Inr_iff)
    with b lt recs show ?thesis by blast
  next
    case c
    with sp d t obtain d' g3 t' g4 where d': "random_randint 1 2 g2 = Inr (d', g3)"
      and t': "clamp_to_end (t + d' * DAY) e g3 = Inr (t', g4)"
      and p: "p = [order_row ord ''completed'' t, order_row ord ''refunded'' t']"
      by (auto simp: status_progression_def bindM_Inr_iff returnM_Inr_iff)
    have "later_stage e 1 2 t t'"
      using clamp_to_end_later[OF t'] random_randint_range[OF d'] by simp
    with c lt recs p show ?thesis by blast
  qed
qed

lemma materialize_records_props:
  "materialize_records orders completed refunded e orecs irecs g = Inr ((orecs', irecs'), g') \<Longrightarrow>
     \<exists>chunks. list_all2 (lifecycle_records completed refunded e) orders chunks
       \<and> orecs' = orecs @ concat chunks
       \<and> irecs' = irecs @ concat (map order_item_rows orders)"
proof (induction orders arbitrary: orecs irecs g)
  case Nil
  then show ?case by (simp add: returnM_Inr_iff)
next
  case (Cons ord orders)
  from Cons.prems obtain p g1 where
    sp: "status_progression ord completed refunded e g = Inr (p, g1)"
    and rec: "materialize_records orders completed refunded e
                (orecs @ [order_row ord ''pending'' (order_date ord)] @ p)
                (irecs @ map (item_row (order_id ord)) (order_items ord)) g1
              = Inr ((orecs', irecs'), g')"
    by (auto simp: bindM_Inr_iff)
  from Cons.IH[OF rec] obtain chunks where ch:
    "list_all2 (lifecycle_records completed refunded e) orders chunks"
    "orecs' = (orecs @ [order_row ord ''pending'' (order_date ord)] @ p) @ concat chunks"
    "irecs' = (irecs @ map (item_row (order_id ord)) (order_items ord))
                @ concat (map order_item_rows orders)" by blast
  have "lifecycle_records completed refunded e ord (order_row ord ''pending'' (order_date ord) # p)"
    using sp by (auto simp: lifecycle_records_def)
  then have "list_all2 (lifecycle_records completed refunded e) (ord # orders)
               ((order_row ord ''pending'' (order_date ord) # p) # chunks)"
    using ch(1) by simp
  moreover have "orecs' = orecs @ concat ((order_row ord ''pending'' (order_date ord) # p) # chunks)"
    using ch(2) by simp
  moreover have "irecs' = irecs @ concat (map order_item_rows (ord # orders))"
    using ch(3) by (simp add: order_item_rows_def)
  ultimately show ?case by blast
qed


section \<open>The product dictionary\<close>

lemma product_data_fold_distinct:
  "distinct (map fst d) \<Longrightarrow>
   distinct (map fst (foldl (\<lambda>d (pid, c, p). AList.update pid \<lparr>created_at = c, price = p\<rparr> d) d rows))"
  by (induction rows arbitrary: d) (auto simp: distinct_update)

lemma distinct_product_data_of: "distinct (map fst (product_data_of rows))"
  unfolding product_data_of_def by (rule product_data_fold_distinct) simp

lemma product_data_fold_lookup:
  "map_of (foldl (\<lambda>d (pid, c, p). AList.update pid \<lparr>created_at = c, price = p\<rparr> d) d rows) k = Some v \<Longrightarrow>
     map_of d k = Some v \<or> (k, created_at v, price v) \<in> set rows"
proof (induction rows arbitrary: d)
  case Nil
  then show ?case by simp
next
  case (Cons row rows)
  obtain pid c p where row: "row = (pid, c, p)" by (cases row)
  from Cons.prems have "map_of (foldl (\<lambda>d (pid, c, p). AList.update pid \<lparr>created_at = c, price = p\<rparr> d)
          (AList.update pid \<lparr>created_at = c, price = p\<rparr> d) rows) k = Some v"
    by (simp add: row)
  from Cons.IH[OF this] show ?case
    by (auto simp: row update_conv' split: if_splits)
qed

lemma product_data_of_lookup:
  "map_of (product_data_of rows) k = Some v \<Longrightarrow> (k, created_at v, price v) \<in> set rows"
  unfolding product_data_of_def by (drule product_data_fold_lookup) simp

section \<open>Selecting by identifier\<close>

lemma filter_key_concat:
  assumes "list_all2 Q os chunks"
    and "\<And>ord ch x. Q ord ch \<Longrightarrow> x \<in> set ch \<Longrightarrow> key x = okey ord"
    and "distinct (map okey os)" and "i < length os"
  shows "filter (\<lambda>x. key x = okey (os ! i)) (concat chunks) = chunks ! i"
  using assms(1,3,4)
proof (induction arbitrary: i rule: list_all2_induct)
  case Nil
  then show ?case by simp
next
  case (Cons ord os ch chunks)
  have keys: "\<And>x. x \<in> set ch \<Longrightarrow> key x = okey ord" using assms(2) Cons.hyps(1) by blast
  have others: "\<And>x. x \<in> set (concat chunks) \<Longrightarrow> key x \<in> okey ` set os"
  proof -
    fix x assume "x \<in> set (concat chunks)"
    then obtain ch' where "ch' \<in> set chunks" "x \<in> set ch'" by auto
    then obtain j where j: "j < length chunks" "ch' = chunks ! j" by (auto simp: in_set_conv_nth)
    have "length os = length chunks" using Cons.hyps(2) by (rule list_all2_lengthD)
    with j Cons.hyps(2) have "Q (os ! j) ch'" "os ! j \<in> set os"
      by (auto simp: list_all2_conv_all_nth)
    with assms(2) \<open>x \<in> set ch'\<close> show "key x \<in> okey ` set os" by blast
  qed
  show ?case
  proof (cases i)
    case 0
    have "filter (\<lambda>x. key x = okey ord) ch = ch" using keys by (simp add: filter_id_conv)
    moreover have "filter (\<lambda>x. key x = okey ord) (concat chunks) = []"
    proof -
      have "okey ord \<notin> okey ` set os" using Cons.prems(1) by simp
      then have "\<forall>x \<in> set (concat chunks). key x \<noteq> okey ord" using others by metis
      then show ?thesis unfolding filter_empty_conv by blast
    qed
    ultimately show ?thesis using 0 by simp
  next
    case (Suc j)
    then have j: "j < length os" using Cons.prems(2) by simp
    then have "os ! j \<in> set os" by simp
    moreover have "okey ord \<notin> okey ` set os" using Cons.prems(1) by simp
    ultimately have "okey (os ! j) \<noteq> okey ord" by (metis imageI)
    then have "filter (\<lambda>x. key x = okey (os ! j)) ch = []"
      using keys by (auto simp: filter_empty_conv)
    moreover have "filter (\<lambda>x. key x = okey (os ! j)) (concat chunks) = chunks ! j"
      using Cons.IH[OF _ j] Cons.prems(1) by simp
    ultimately show ?thesis using Suc by simp
  qed
qed

section \<open>The structure of a run\<close>

lemma engine_structure_draw:
  assumes run: "populate_orders_and_items_new_lifecycle customer_ids product_rows orders_max now
            num_orders max_items days start_date g = Inr (Generated orecs irecs, g')"
  shows "\<exists>pending completed refunded chunks rate g4 g5.
     distinct (map order_id pending) \<and> length pending = nat num_orders
   \<and> (\<forall>ord \<in> set pending. order_consistent (product_data_of product_rows) ord)
   \<and> set completed \<subseteq> {ord \<in> set pending. order_has_items ord} \<and> distinct completed
   \<and> set refunded \<subseteq> set completed
   \<and> 9 / 10 \<le> rate \<and> rate \<le> 1
   \<and> int (length completed) = py_int (of_nat (length (filter order_has_items pending)) * rate)
   \<and> list_all2 (lifecycle_records completed refunded
         (snd (order_window (product_data_of product_rows) orders_max now days start_date)))
         pending chunks
   \<and> orecs = concat chunks \<and> irecs = concat (map order_item_rows pending)
   \<and> orders_after_item_stage customer_ids product_rows orders_max now
         num_orders max_items days start_date g = Inr (pending, g4)
   \<and> random_uniform (90 / 100) 1 g4 = Inr (rate, g5)"
proof -
  let ?pd = "product_data_of product_rows"
  obtain s e where w: "order_window ?pd orders_max now days start_date = (s, e)"
    by (cases "order_window ?pd orders_max now days start_date")
  have c: "customer_ids \<noteq> []"
    using run by (auto simp: populate_orders_and_items_new_lifecycle_def returnM_Inr_iff)
  have p: "?pd \<noteq> []"
    using run c by (auto simp: populate_orders_and_items_new_lifecycle_def returnM_Inr_iff Let_def)
  from run c p w obtain pending0 g1 item_rate g2 positions g3 pending g4 rate g5
      completed g6 refund_rate g7 refunded g8 where
    s1: "create_pending_orders (nat num_orders) customer_ids s e [] Map.empty g = Inr (pending0, g1)"
    and s1a: "random_uniform (85 / 100) 1 g1 = Inr (item_rate, g2)"
    and s2a: "random_sample (length pending0) (py_int (of_int num_orders * item_rate)) g2
                = Inr (positions, g3)"
    and s2: "create_order_items positions ?pd max_items pending0 g3 = Inr (pending, g4)"
    and s3a: "random_uniform (90 / 100) 1 g4 = Inr (rate, g5)"
    and s3: "sample_if_nonempty (filter order_has_items pending)
               (py_int (of_nat (length (filter order_has_items pending)) * rate)) g5
               = Inr (completed, g6)"
    and s4: "sample_if_nonempty completed
               (py_int (of_nat (length completed) * refund_rate)) g7 = Inr (refunded, g8)"
    and s5: "materialize_records pending completed refunded e [] [] g8 = Inr ((orecs, irecs), g')"
    by (auto simp: populate_orders_and_items_new_lifecycle_def bindM_Inr_iff returnM_Inr_iff Let_def)
  from create_pending_orders_props[OF s1]
  have p0: "distinct (map order_id pending0)" "\<forall>ord \<in> set pending0. fresh ord"
    "length pending0 = nat num_orders"
    by (simp_all add: counters_cover_def)
  from random_sample_props[OF s2a]
  have pos: "distinct positions" "\<forall>i \<in> set positions. i < length pending0" by auto
  have "\<forall>ord \<in> set pending0. order_consistent ?pd ord"
    using p0(2) by (auto simp: fresh_def order_consistent_def)
  with create_order_items_props[OF distinct_product_data_of s2 pos(1)] pos(2) p0(2)
  have p1: "\<forall>ord \<in> set pending. order_consistent ?pd ord"
    "map order_id pending = map order_id pending0" by auto
  have d: "distinct (map order_id pending)" using p1(2) p0(1) by simp
  have len: "length pending = nat num_orders"
    using p1(2) p0(3) by (metis length_map)
  have dp: "distinct pending" using d by (simp add: distinct_map)
  from sample_if_nonempty_props[OF s3] dp
  have co: "set completed \<subseteq> set (filter order_has_items pending)" "distinct completed"
    "int (length completed) = py_int (of_nat (length (filter order_has_items pending)) * rate)
      \<or> filter order_has_items pending = [] \<and> completed = []" by auto
  have cnt: "int (length completed) = py_int (of_nat (length (filter order_has_items pending)) * rate)"
    using co(3) by (auto simp: py_int_def)
  from sample_if_nonempty_props[OF s4] have re: "set refunded \<subseteq> set completed" by simp
  from random_uniform_range[OF _ s3a] have r: "9 / 10 \<le> rate" "rate \<le> 1" by simp_all
  from materialize_records_props[OF s5] obtain chunks where
    ch: "list_all2 (lifecycle_records completed refunded e) pending chunks"
    "orecs = concat chunks" "irecs = concat (map order_item_rows pending)" by auto
  have st: "orders_after_item_stage customer_ids product_rows orders_max now
         num_orders max_items days start_date g = Inr (pending, g4)"
    using s1 s1a s2a s2 by (simp add: orders_after_item_stage_def w bindM_def)
  show ?thesis
    using d len p1(1) co(1,2) re r cnt ch w st s3a
    by (intro exI[of _ pending] exI[of _ completed] exI[of _ refunded] exI[of _ chunks]
          exI[of _ rate] exI[of _ g4] exI[of _ g5]) auto
qed


lemma engine_structure:
  assumes run: "populate_orders_and_items_new_lifecycle customer_ids product_rows orders_max now
            num_orders max_items days start_date g = Inr (Generated orecs irecs, g')"
  shows "\<exists>pending completed refunded chunks rate.
     distinct (map order_id pending) \<and> length pending = nat num_orders
   \<and> (\<forall>ord \<in> set pending. order_consistent (product_data_of product_rows) ord)
   \<and> set completed \<subseteq> {ord \<in> set pending. order_has_items ord} \<and> distinct completed
   \<and> set refunded \<subseteq> set completed
   \<and> 9 / 10 \<le> rate \<and> rate \<le> 1
   \<and> int (length completed) = py_int (of_nat (length (filter order_has_items pending)) * rate)
   \<and> list_all2 (lifecycle_records completed refunded
         (snd (order_window (product_data_of product_rows) orders_max now days start_date)))
         pending chunks
   \<and> orecs = concat chunks \<and> irecs = concat (map order_item_rows pending)"
  using engine_structure_draw[OF run] by blast

section \<open>The records of a logical order\<close>

lemma lifecycle_records_rows:
  assumes "lifecycle_records completed refunded e ord recs" and "x \<in> set recs"
  shows "rec_id x = order_id ord \<and> rec_total_amount x = order_total_amount ord
         \<and> rec_order_date x = order_date ord \<and> rec_customer_id x = order_customer_id ord"
  using lifecycle_records_cases[OF assms(1)] assms(2) by (auto simp: order_row_def)

lemma lifecycle_records_id:
  "lifecycle_records completed refunded e ord recs \<Longrightarrow> x \<in> set recs \<Longrightarrow> rec_id x = order_id ord"
  by (drule (1) lifecycle_records_rows) simp

lemma records_of_order:
  assumes "distinct (map order_id pending)"
    and "list_all2 (lifecycle_records completed refunded e) pending chunks"
    and "i < length pending"
  shows "records_of (order_id (pending ! i)) (concat chunks) = chunks ! i"
  unfolding records_of_def
  using assms(2) lifecycle_records_id assms(1,3) by (rule filter_key_concat)

lemma items_of_order:
  assumes "distinct (map order_id pending)" and "i < length pending"
  shows "items_of (order_id (pending ! i)) (concat (map order_item_rows pending))
           = order_item_rows (pending ! i)"
proof -
  have la: "list_all2 (\<lambda>ord ch. ch = order_item_rows ord) pending (map order_item_rows pending)"
    by (simp add: list_all2_conv_all_nth)
  have k: "\<And>ord ch x. ch = order_item_rows ord \<Longrightarrow> x \<in> set ch \<Longrightarrow> ir_order_id x = order_id ord"
    by (auto simp: order_item_rows_def item_row_def)
  have "filter (\<lambda>x. ir_order_id x = order_id (pending ! i)) (concat (map order_item_rows pending))
          = map order_item_rows pending ! i"
    using la k assms by (rule filter_key_concat)
  then show ?thesis using assms(2) by (simp add: items_of_def)
qed

lemma record_of_some_order:
  assumes "list_all2 (lifecycle_records completed refunded e) pending chunks"
    and "r \<in> set (concat chunks)"
  shows "\<exists>i < length pending. r \<in> set (chunks ! i) \<and> rec_id r = order_id (pending ! i)
           \<and> lifecycle_records completed refunded e (pending ! i) (chunks ! i)"
proof -
  from assms(2) obtain ch where "ch \<in> set chunks" "r \<in> set ch" by auto
  then obtain i where i: "i < length chunks" "r \<in> set (chunks ! i)"
    by (metis in_set_conv_nth)
  have len: "length pending = length chunks" using assms(1) by (rule list_all2_lengthD)
  have l: "lifecycle_records completed refunded e (pending ! i) (chunks ! i)"
    using assms(1) i(1) len by (simp add: list_all2_conv_all_nth)
  show ?thesis using i len l lifecycle_records_id[OF l i(2)] by auto
qed

lemma sum_line_totals:
  "sum_list (map line_total (order_item_rows ord))
     = sum_list (map (\<lambda>it. item_quantity it * item_unit_price it) (order_items ord))"
  by (simp add: order_item_rows_def line_total_def item_row_def comp_def)

lemma item_of_some_order:
  assumes "it \<in> set (concat (map order_item_rows pending))"
  shows "\<exists>i < length pending. it \<in> set (order_item_rows (pending ! i))"
proof -
  from assms obtain ord where "ord \<in> set pending" "it \<in> set (order_item_rows ord)" by auto
  then show ?thesis by (metis in_set_conv_nth)
qed


lemma example_run:
  "populate_orders_and_items_new_lifecycle [7] [(1, 0, 500)] None 0 3 1 7 (Some 0) example_rng
     = Inr (Generated example_order_records example_item_records, [])"
  by code_simp

section \<open>Totals\<close>

text \<open>
  Claim C1.  In the output of a run of the new-lifecycle engine, every status record
  carries as total amount the sum of quantity times unit price over the item records of
  its logical order (the item records with the same order identifier), which is 0 when the
  order has none.  Hence all status records of one logical order carry the same total.
\<close>

theorem order_totals_match_items:
  assumes "populate_orders_and_items_new_lifecycle customer_ids product_rows orders_max now
            num_orders max_items days start_date g = Inr (Generated orecs irecs, g')"
  shows "\<forall>r \<in> set orecs.
           rec_total_amount r = sum_list (map line_total (items_of (rec_id r) irecs))"
proof
  fix r assume r: "r \<in> set orecs"
  from engine_structure[OF assms] obtain pending completed refunded chunks e where
    d: "distinct (map order_id pending)"
    and oc: "\<forall>ord \<in> set pending. order_consistent (product_data_of product_rows) ord"
    and la: "list_all2 (lifecycle_records completed refunded e) pending chunks"
    and o: "orecs = concat chunks" and ir: "irecs = concat (map order_item_rows pending)"
    by blast
  from record_of_some_order[OF la] r o obtain i where i: "i < length pending"
    "r \<in> set (chunks ! i)" "rec_id r = order_id (pending ! i)"
    "lifecycle_records completed refunded e (pending ! i) (chunks ! i)" by blast
  from lifecycle_records_rows[OF i(4) i(2)]
  have "rec_total_amount r = order_total_amount (pending ! i)" by simp
  also have "\<dots> = sum_list (map line_total (order_item_rows (pending ! i)))"
    using oc i(1) by (simp add: sum_line_totals order_consistent_def)
  also have "\<dots> = sum_list (map line_total (items_of (rec_id r) irecs))"
    using items_of_order[OF d i(1)] i(3) ir by simp
  finally show "rec_total_amount r = sum_list (map line_total (items_of (rec_id r) irecs))" .
qed


text \<open>In the example run, the completed record of the second order carries 9.00, the
  line total of its item (2 at 4.50).\<close>

theorem order_totals_match_items_witness:
  "populate_orders_and_items_new_lifecycle [7] [(1, 0, 500)] None 0 3 1 7 (Some 0) example_rng
     = Inr (Generated example_order_records example_item_records, [])
   \<and> example_order_records ! 3 \<in> set example_order_records
   \<and> rec_total_amount (example_order_records ! 3) = 900
   \<and> sum_list (map line_total (items_of (rec_id (example_order_records ! 3)) example_item_records))
       = 900"
proof -
  have m: "example_order_records ! 3 \<in> set example_order_records"
    by (simp add: example_order_records_def)
  have t: "rec_total_amount (example_order_records ! 3) = 900"
    by (simp add: example_order_records_def)
  from order_totals_match_items[OF example_run] m
  have "rec_total_amount (example_order_records ! 3)
          = sum_list (map line_total (items_of (rec_id (example_order_records ! 3))
              example_item_records))"
    by blast
  with example_run m t show ?thesis by simp
qed

section \<open>Lifecycle stages\<close>

text \<open>
  Claim C2.  In the output of a run of the new-lifecycle engine, the status records of
  every logical order (the records with the same order identifier) contain exactly one
  pending record, whose timestamp is the order date, all carry the same order date, contain
  exactly one terminal record, completed or cancelled and never both, at most one refunded
  record, a refunded record only together with a completed record, and no record of
  another status.
\<close>

theorem lifecycle_stages_of_each_order:
  assumes "populate_orders_and_items_new_lifecycle customer_ids product_rows orders_max now
            num_orders max_items days start_date g = Inr (Generated orecs irecs, g')"
  shows "\<forall>r \<in> set orecs.
           (\<exists>p. with_status ''pending'' (records_of (rec_id r) orecs) = [p]
                 \<and> rec_created_at p = rec_order_date p)
         \<and> (\<forall>q \<in> set (records_of (rec_id r) orecs). rec_order_date q = rec_order_date r)
         \<and> length (with_status ''completed'' (records_of (rec_id r) orecs))
             + length (with_status ''cancelled'' (records_of (rec_id r) orecs)) = 1
         \<and> length (with_status ''refunded'' (records_of (rec_id r) orecs)) \<le> 1
         \<and> (with_status ''refunded'' (records_of (rec_id r) orecs) \<noteq> []
              \<longrightarrow> with_status ''completed'' (records_of (rec_id r) orecs) \<noteq> [])
         \<and> (\<forall>q \<in> set (records_of (rec_id r) orecs).
               rec_status q \<in> {''pending'', ''completed'', ''cancelled'', ''refunded''})"
proof
  fix r assume r: "r \<in> set orecs"
  from engine_structure[OF assms] obtain pending completed refunded chunks e where
    d: "distinct (map order_id pending)"
    and la: "list_all2 (lifecycle_records completed refunded e) pending chunks"
    and o: "orecs = concat chunks"
    by blast
  from record_of_some_order[OF la] r o obtain i where i: "i < length pending"
    "r \<in> set (chunks ! i)" "rec_id r = order_id (pending ! i)"
    "lifecycle_records completed refunded e (pending ! i) (chunks ! i)" by blast
  have ro: "records_of (rec_id r) orecs = chunks ! i"
    using records_of_order[OF d la i(1)] i(3) o by simp
  have od: "rec_order_date r = order_date (pending ! i)"
    using lifecycle_records_rows[OF i(4) i(2)] by simp
  show "(\<exists>p. with_status ''pending'' (records_of (rec_id r) orecs) = [p]
                 \<and> rec_created_at p = rec_order_date p)
         \<and> (\<forall>q \<in> set (records_of (rec_id r) orecs). rec_order_date q = rec_order_date r)
         \<and> length (with_status ''completed'' (records_of (rec_id r) orecs))
             + length (with_status ''cancelled'' (records_of (rec_id r) orecs)) = 1
         \<and> length (with_status ''refunded'' (records_of (rec_id r) orecs)) \<le> 1
         \<and> (with_status ''refunded'' (records_of (rec_id r) orecs) \<noteq> []
              \<longrightarrow> with_status ''completed'' (records_of (rec_id r) orecs) \<noteq> [])
         \<and> (\<forall>q \<in> set (records_of (rec_id r) orecs).
               rec_status q \<in> {''pending'', ''completed'', ''cancelled'', ''refunded''})"
    unfolding ro od
    using lifecycle_records_cases[OF i(4)]
    by (elim disjE conjE exE) (simp_all add: with_status_def order_row_def)
qed


text \<open>In the example run, the first order has the pending record and a cancelled
  record.\<close>

theorem lifecycle_stages_of_each_order_witness:
  "populate_orders_and_items_new_lifecycle [7] [(1, 0, 500)] None 0 3 1 7 (Some 0) example_rng
     = Inr (Generated example_order_records example_item_records, [])
   \<and> example_order_records ! 0 \<in> set example_order_records
   \<and> with_status ''pending'' (records_of (rec_id (example_order_records ! 0)) example_order_records)
       = [example_order_records ! 0]
   \<and> length (with_status ''completed''
         (records_of (rec_id (example_order_records ! 0)) example_order_records))
       + length (with_status ''cancelled''
         (records_of (rec_id (example_order_records ! 0)) example_order_records)) = 1"
proof -
  have m: "example_order_records ! 0 \<in> set example_order_records"
    by (simp add: example_order_records_def)
  have p: "with_status ''pending''
             (records_of (rec_id (example_order_records ! 0)) example_order_records)
           = [example_order_records ! 0]"
    by (simp add: example_order_records_def with_status_def records_of_def)
  from lifecycle_stages_of_each_order[OF example_run] m
  have "length (with_status ''completed''
         (records_of (rec_id (example_order_records ! 0)) example_order_records))
       + length (with_status ''cancelled''
         (records_of (rec_id (example_order_records ! 0)) example_order_records)) = 1"
    by blast
  with example_run m p show ?thesis by simp
qed

section \<open>Items, orders and products in time\<close>

text \<open>
  Claim C4.  In the output of a run of the new-lifecycle engine, every item record belongs
  to a logical order of the run, its creation timestamp is not before the order date of
  that order, and the product it references is a row of the product table, the one the
  engine's product dictionary holds under that id, created not after the order date, hence
  not after the item.
\<close>

theorem items_follow_order_and_product:
  assumes "populate_orders_and_items_new_lifecycle customer_ids product_rows orders_max now
            num_orders max_items days start_date g = Inr (Generated orecs irecs, g')"
  shows "\<forall>it \<in> set irecs.
           records_of (ir_order_id it) orecs \<noteq> []
         \<and> (\<forall>r \<in> set (records_of (ir_order_id it) orecs). rec_order_date r \<le> ir_created_at it)
         \<and> (\<exists>c p. (ir_product_id it, c, p) \<in> set product_rows
                \<and> map_of (product_data_of product_rows) (ir_product_id it)
                    = Some \<lparr>created_at = c, price = p\<rparr>
                \<and> c \<le> ir_created_at it
                \<and> (\<forall>r \<in> set (records_of (ir_order_id it) orecs). c \<le> rec_order_date r))"
proof
  fix it assume it: "it \<in> set irecs"
  let ?pd = "product_data_of product_rows"
  from engine_structure[OF assms] obtain pending completed refunded chunks e where
    d: "distinct (map order_id pending)"
    and oc: "\<forall>ord \<in> set pending. order_consistent ?pd ord"
    and la: "list_all2 (lifecycle_records completed refunded e) pending chunks"
    and o: "orecs = concat chunks" and ir: "irecs = concat (map order_item_rows pending)"
    by blast
  from item_of_some_order it ir obtain i where i: "i < length pending"
    "it \<in> set (order_item_rows (pending ! i))" by blast
  define ord where "ord = pending ! i"
  from i(2) obtain x where x: "x \<in> set (order_items ord)" "it = item_row (order_id ord) x"
    by (auto simp: order_item_rows_def ord_def)
  have "order_consistent ?pd ord" using oc i(1) by (simp add: ord_def)
  with x(1) obtain pr where pr: "order_date ord < item_created_at x"
    "map_of ?pd (item_product_id x) = Some pr" "created_at pr \<le> order_date ord"
    by (auto simp: order_consistent_def)
  have ro: "records_of (ir_order_id it) orecs = chunks ! i"
    using records_of_order[OF d la i(1)] x(2) o by (simp add: item_row_def ord_def)
  have l: "lifecycle_records completed refunded e ord (chunks ! i)"
    using la i(1) by (simp add: list_all2_conv_all_nth ord_def)
  have dates: "\<forall>r \<in> set (chunks ! i). rec_order_date r = order_date ord"
    using lifecycle_records_rows[OF l] by blast
  have ne: "chunks ! i \<noteq> []" using l by (auto simp: lifecycle_records_def)
  have fields: "ir_product_id it = item_product_id x" "ir_created_at it = item_created_at x"
    using x(2) by (simp_all add: item_row_def)
  have row: "(item_product_id x, created_at pr, price pr) \<in> set product_rows"
    using product_data_of_lookup[OF pr(2)] .
  have "\<exists>c p. (ir_product_id it, c, p) \<in> set product_rows
          \<and> map_of ?pd (ir_product_id it) = Some \<lparr>created_at = c, price = p\<rparr>
          \<and> c \<le> ir_created_at it
          \<and> (\<forall>r \<in> set (chunks ! i). c \<le> rec_order_date r)"
    using row pr dates fields
    by (intro exI[of _ "created_at pr"] exI[of _ "price pr"]) auto
  then show "records_of (ir_order_id it) orecs \<noteq> []
         \<and> (\<forall>r \<in> set (records_of (ir_order_id it) orecs). rec_order_date r \<le> ir_created_at it)
         \<and> (\<exists>c p. (ir_product_id it, c, p) \<in> set product_rows
                \<and> map_of ?pd (ir_product_id it) = Some \<lparr>created_at = c, price = p\<rparr>
                \<and> c \<le> ir_created_at it
                \<and> (\<forall>r \<in> set (records_of (ir_order_id it) orecs). c \<le> rec_order_date r))"
    unfolding ro using ne dates pr(1) fields by auto
qed

text \<open>In the example run, the item of the second order is created one minute after the
  order, and its product at time 0.\<close>

theorem items_follow_order_and_product_witness:
  "populate_orders_and_items_new_lifecycle [7] [(1, 0, 500)] None 0 3 1 7 (Some 0) example_rng
     = Inr (Generated example_order_records example_item_records, [])
   \<and> example_item_records ! 1 \<in> set example_item_records
   \<and> example_order_records ! 2 \<in> set (records_of (ir_order_id (example_item_records ! 1))
         example_order_records)
   \<and> rec_order_date (example_order_records ! 2) \<le> ir_created_at (example_item_records ! 1)
   \<and> rec_order_date (example_order_records ! 2) = 3600000000
   \<and> ir_created_at (example_item_records ! 1) = 3660000000"
proof -
  have m: "example_item_records ! 1 \<in> set example_item_records"
    by (simp add: example_item_records_def)
  have r: "example_order_records ! 2 \<in> set (records_of (ir_order_id (example_item_records ! 1))
         example_order_records)"
    by (simp add: example_item_records_def example_order_records_def records_of_def)
  from items_follow_order_and_product[OF example_run] m r
  have "rec_order_date (example_order_records ! 2) \<le> ir_created_at (example_item_records ! 1)"
    by blast
  with example_run m r show ?thesis
    by (simp add: example_item_records_def example_order_records_def)
qed

section \<open>Final statuses\<close>










section \<open>The order of the stages in time\<close>

text \<open>
  Claim C3 fails on the code.  In the example run the first order is placed one second
  before the end of the window, inside the window.  Its cancelled record, which the code
  sets out to stamp 1 to 4 days later, overshoots the end of the window and is stamped one
  hour before the end of the window instead: the terminal record of the order precedes its
  pending record.
\<close>

theorem cancelled_before_pending:
  "populate_orders_and_items_new_lifecycle [7] [(1, 0, 500)] None 0 3 1 7 (Some 0) example_rng
     = Inr (Generated example_order_records example_item_records, [])
   \<and> rec_id (example_order_records ! 1) = rec_id (example_order_records ! 0)
   \<and> rec_status (example_order_records ! 0) = ''pending''
   \<and> rec_status (example_order_records ! 1) = ''cancelled''
   \<and> rec_created_at (example_order_records ! 0)
        \<le> snd (standalone_calculate_date_range None 0 7 (Some 0))
   \<and> rec_created_at (example_order_records ! 1) < rec_created_at (example_order_records ! 0)"
  using example_run
  by (simp add: example_order_records_def standalone_calculate_date_range_def DAY_def)

section \<open>Timestamps and the window\<close>

text \<open>
  Claim C6 fails on the code.  In the example run the window is \<open>[0, 7 days]\<close>.  The third
  order date, drawn by \<open>generate_random_timestamp\<close> as 7 days and 23 hours after the start,
  lies after the end of the window, and it is the timestamp of the pending record; the
  item of the first order, placed one second before the end of the window, is stamped one
  minute later, after the end of the window.
\<close>

theorem timestamps_exceed_window_end:
  "populate_orders_and_items_new_lifecycle [7] [(1, 0, 500)] None 0 3 1 7 (Some 0) example_rng
     = Inr (Generated example_order_records example_item_records, [])
   \<and> order_window (product_data_of [(1, 0, 500)]) None 0 7 (Some 0) = (0, 604800000000)
   \<and> generate_random_timestamp 0 604800000000 [7, 23, 0, 0] = Inr (687600000000, [])
   \<and> rec_status (example_order_records ! 4) = ''pending''
   \<and> snd (order_window (product_data_of [(1, 0, 500)]) None 0 7 (Some 0))
        < rec_created_at (example_order_records ! 4)
   \<and> ir_order_id (example_item_records ! 0) = rec_id (example_order_records ! 0)
   \<and> rec_order_date (example_order_records ! 0)
        \<le> snd (order_window (product_data_of [(1, 0, 500)]) None 0 7 (Some 0))
   \<and> snd (order_window (product_data_of [(1, 0, 500)]) None 0 7 (Some 0))
        < ir_created_at (example_item_records ! 0)"
proof -
  have w: "order_window (product_data_of [(1, 0, 500)]) None 0 7 (Some 0) = (0, 604800000000)"
    by code_simp
  have t: "generate_random_timestamp 0 604800000000 [7, 23, 0, 0] = Inr (687600000000, [])"
    by code_simp
  show ?thesis using example_run t unfolding w
    by (simp add: example_order_records_def example_item_records_def)
qed

section \<open>Repeated runs\<close>

text \<open>
  Claim C8 fails on the code.  After the example run the latest \<^verbatim>\<open>created_at\<close> of the
  orders table is that of the pending record of the third order.  A second run with no
  explicit start date starts its window at exactly that time, and with all draws 0 its
  first order is placed at that time and receives the identifier of the third order of
  the first run.
\<close>

theorem second_run_reuses_identifier:
  "populate_orders_and_items_new_lifecycle [7] [(1, 0, 500)] None 0 3 1 7 (Some 0) example_rng
     = Inr (Generated example_order_records example_item_records, [])
   \<and> Max (set (map rec_created_at example_order_records)) = 687600000000
   \<and> fst (standalone_calculate_date_range (Some 687600000000) 700000000000 7 None) = 687600000000
   \<and> populate_orders_and_items_new_lifecycle [7] [(1, 0, 500)] (Some 687600000000) 700000000000
        1 1 7 None []
       = Inr (Generated
           [\<lparr>rec_id = (687600, 1), rec_customer_id = 7, rec_order_date = 687600000000,
              rec_status = ''pending'', rec_total_amount = 0, rec_created_at = 687600000000\<rparr>,
            \<lparr>rec_id = (687600, 1), rec_customer_id = 7, rec_order_date = 687600000000,
              rec_status = ''cancelled'', rec_total_amount = 0, rec_created_at = 774000000000\<rparr>]
           [], [])
   \<and> rec_id (example_order_records ! 4) = (687600, 1)"
proof -
  have m: "Max (set (map rec_created_at example_order_records)) = 687600000000"
    by (simp add: example_order_records_def)
  have s: "fst (standalone_calculate_date_range (Some 687600000000) 700000000000 7 None)
             = 687600000000"
    by (simp add: standalone_calculate_date_range_def)
  have r: "populate_orders_and_items_new_lifecycle [7] [(1, 0, 500)] (Some 687600000000) 700000000000
        1 1 7 None []
       = Inr (Generated
           [\<lparr>rec_id = (687600, 1), rec_customer_id = 7, rec_order_date = 687600000000,
              rec_status = ''pending'', rec_total_amount = 0, rec_created_at = 687600000000\<rparr>,
            \<lparr>rec_id = (687600, 1), rec_customer_id = 7, rec_order_date = 687600000000,
              rec_status = ''cancelled'', rec_total_amount = 0, rec_created_at = 774000000000\<rparr>]
           [], [])"
    by code_simp
  show ?thesis using example_run m s r by (simp add: example_order_records_def)
qed


section \<open>Customer emails\<close>

text \<open>
  Claim C9 fails on the code.  With the email \<^verbatim>\<open>a@x.com\<close> persisted and a Faker that
  delivers it for the first candidate and for each of the 50 retries, the generator emits
  a customer with that email: no synthesized email is substituted.
\<close>

theorem duplicate_email_after_retries:
  "populate_customers (Some 0) [''a@x.com''] 0 1 30 None
     (''Ann'' # replicate 51 ''a@x.com'' @ [''France'']) []
   = Inr ([\<lparr>cust_name = ''Ann'', cust_email = ''a@x.com'', cust_country = ''France'',
             cust_signup_date = 0, cust_created_at = 0\<rparr>], [])"
  by code_simp


section \<open>The date range\<close>

text \<open>The older method always returns a non-empty window that ends no later than the
  current time.\<close>

lemma calculate_date_range_window:
  "fst (calculate_date_range default_start table_max now days start_date)
     < snd (calculate_date_range default_start table_max now days start_date)
   \<and> snd (calculate_date_range default_start table_max now days start_date) \<le> now"
  by (auto simp: calculate_date_range_def Let_def HOUR_def MINUTE_def DAY_def
        split: option.splits)

text \<open>
  Claim C7 fails on the code.  The calculation the run uses,
  \<open>standalone_calculate_date_range\<close>, does not clamp the end of the window to the current
  time, adds no offset to the maximum of the table, has no fixed anchor for an empty table
  and substitutes no window; the older method \<open>calculate_date_range\<close> does each of these.
  Times are in microseconds, the current time is day 10 and the anchor of the older method
  is day 5.  With the explicit start date 0 and 30 days the window ends on day 30, twenty
  days in the future (the older method ends it now).  With a table whose latest row is at
  day 9 and 7 days the window starts at that row and ends on day 16 (the older method
  starts one minute later and ends now).  With an empty table and no start date the window
  starts now and lies in the future (the older method starts at its anchor and ends now).
\<close>

theorem date_range_not_clamped:
  "standalone_calculate_date_range None (10 * DAY) 30 (Some 0) = (0, 30 * DAY)
   \<and> 10 * DAY < snd (standalone_calculate_date_range None (10 * DAY) 30 (Some 0))
   \<and> calculate_date_range (5 * DAY) None (10 * DAY) 30 (Some 0) = (0, 10 * DAY)
   \<and> standalone_calculate_date_range (Some (9 * DAY)) (10 * DAY) 7 None = (9 * DAY, 16 * DAY)
   \<and> calculate_date_range (5 * DAY) (Some (9 * DAY)) (10 * DAY) 7 None
       = (9 * DAY + 1 * MINUTE, 10 * DAY)
   \<and> standalone_calculate_date_range None (10 * DAY) 7 None = (10 * DAY, 17 * DAY)
   \<and> calculate_date_range (5 * DAY) None (10 * DAY) 7 None = (5 * DAY, 10 * DAY)"
  by (simp add: standalone_calculate_date_range_def calculate_date_range_def Let_def
        HOUR_def MINUTE_def DAY_def)

section \<open>A window that ends before the first product\<close>

lemma generate_random_timestamp_empty_window:
  assumes "end_date < start_date"
  shows "generate_random_timestamp start_date end_date g = Inl ValueError"
proof -
  have "(end_date - start_date) div DAY < 0"
    using assms by (simp add: DAY_def div_neg_pos_less0)
  then show ?thesis
    by (simp add: generate_random_timestamp_def timedelta_days_def bindM_def random_randint_def)
qed

lemma order_window_inverted:
  assumes "snd (standalone_calculate_date_range orders_max now days start_date)
             < min_list (map (\<lambda>(pid, pdata). created_at pdata) product_data)"
  shows "snd (order_window product_data orders_max now days start_date)
           < fst (order_window product_data orders_max now days start_date)"
  using assms by (auto simp: order_window_def Let_def MINUTE_def split: prod.splits)

text \<open>
  Claim C10.  When the end of the window computed for the orders table precedes the
  creation time of the earliest product, the window the engine goes on with has its start
  after its end (for a window length \<open>days \<ge> 0\<close> the start is the earliest product time plus
  one minute), and with at least one order requested the first timestamp draw raises
  \<^verbatim>\<open>ValueError\<close>: the run ends with that exception, not with a reported precondition
  failure.
\<close>

theorem window_before_products_raises:
  assumes "customer_ids \<noteq> []" and "product_data_of product_rows \<noteq> []"
    and "snd (standalone_calculate_date_range orders_max now days start_date)
           < min_list (map (\<lambda>(pid, pdata). created_at pdata) (product_data_of product_rows))"
    and "0 < num_orders"
  shows "snd (order_window (product_data_of product_rows) orders_max now days start_date)
           < fst (order_window (product_data_of product_rows) orders_max now days start_date)
       \<and> (0 \<le> days \<longrightarrow> fst (order_window (product_data_of product_rows) orders_max now days start_date)
             = min_list (map (\<lambda>(pid, pdata). created_at pdata) (product_data_of product_rows)) + 1 * MINUTE)
       \<and> populate_orders_and_items_new_lifecycle customer_ids product_rows orders_max now
           num_orders max_items_per_order days start_date g = Inl ValueError"
proof -
  let ?pd = "product_data_of product_rows"
  obtain s e where w: "order_window ?pd orders_max now days start_date = (s, e)"
    by (cases "order_window ?pd orders_max now days start_date")
  have inv: "e < s" using order_window_inverted[OF assms(3)] w by simp
  obtain n where n: "nat num_orders = Suc n" using assms(4) by (cases "nat num_orders") auto
  obtain c g1 where c: "random_choice customer_ids g = Inr (c, g1)"
    using random_choice_ok[OF assms(1)] by blast
  have "create_pending_orders (nat num_orders) customer_ids s e [] Map.empty g = Inl ValueError"
    unfolding n
    by (simp add: bindM_def c generate_random_timestamp_empty_window[OF inv])
  then have crash: "populate_orders_and_items_new_lifecycle customer_ids product_rows orders_max now
           num_orders max_items_per_order days start_date g = Inl ValueError"
    using assms(1,2) by (simp add: populate_orders_and_items_new_lifecycle_def w bindM_def)
  have pushed: "0 \<le> days \<longrightarrow> fst (order_window ?pd orders_max now days start_date)
             = min_list (map (\<lambda>(pid, pdata). created_at pdata) ?pd) + 1 * MINUTE"
    using assms(3)
    by (auto simp: order_window_def standalone_calculate_date_range_def Let_def DAY_def
          split: prod.splits option.splits)
  show ?thesis using order_window_inverted[OF assms(3)] pushed crash by blast
qed

text \<open>One customer, one product created on day 100, a window of one day from time 0.\<close>

theorem window_before_products_raises_witness:
  "[7] \<noteq> ([] :: int list) \<and> product_data_of [(1, 100 * DAY, 500)] \<noteq> []
   \<and> snd (standalone_calculate_date_range None 0 1 (Some 0))
       < min_list (map (\<lambda>(pid, pdata). created_at pdata) (product_data_of [(1, 100 * DAY, 500)]))
   \<and> (0 :: int) < 1
   \<and> fst (order_window (product_data_of [(1, 100 * DAY, 500)]) None 0 1 (Some 0))
       = 100 * DAY + 1 * MINUTE
   \<and> populate_orders_and_items_new_lifecycle [7] [(1, 100 * DAY, 500)] None 0 1 1 1 (Some 0) []
       = Inl ValueError"
proof -
  have h1: "[7] \<noteq> ([] :: int list)" by simp
  have h2: "product_data_of [(1, 100 * DAY, 500)] \<noteq> []"
    by (simp add: product_data_of_def)
  have h3: "snd (standalone_calculate_date_range None 0 1 (Some 0))
       < min_list (map (\<lambda>(pid, pdata). created_at pdata) (product_data_of [(1, 100 * DAY, 500)]))"
    by (simp add: product_data_of_def standalone_calculate_date_range_def DAY_def)
  have h4: "(0 :: int) < 1" by simp
  have m: "min_list (map (\<lambda>(pid, pdata). created_at pdata) (product_data_of [(1, 100 * DAY, 500)]))
             = 100 * DAY"
    by (simp add: product_data_of_def)
  show ?thesis
    using window_before_products_raises [OF h1 h2 h3 h4, of 1 "[]"] h1 h2 h3 m by simp
qed

end
